theory Spec2Isabelle
  imports Main
begin

section \<open>Python strings\<close>

text \<open>
  A Python \<open>str\<close> is modelled as a \<open>string\<close>, one \<open>char\<close> per code point, for the
  code points U+0000 to U+00FF. The character classes below are the ones that
  \<open>str.strip\<close>, \<open>str.lower\<close> and the regular expression class \<open>\w\<close> use on that range.
\<close>

definition is_space :: "char \<Rightarrow> bool" where
  "is_space c =
     (let n = (of_char c :: nat)
      in (9 \<le> n \<and> n \<le> 13) \<or> (28 \<le> n \<and> n \<le> 32) \<or> n = 133 \<or> n = 160)"

definition is_upper :: "char \<Rightarrow> bool" where
  "is_upper c =
     (let n = (of_char c :: nat)
      in (65 \<le> n \<and> n \<le> 90) \<or> (192 \<le> n \<and> n \<le> 222 \<and> n \<noteq> 215))"

text \<open>Every upper-case letter of the range has bit 5 clear; its lower-case partner is 32 above.\<close>

definition lower_char :: "char \<Rightarrow> char" where
  "lower_char c =
     (if is_upper c
      then (case c of Char b0 b1 b2 b3 b4 b5 b6 b7 \<Rightarrow> Char b0 b1 b2 b3 b4 True b6 b7)
      else c)"

definition is_word :: "char \<Rightarrow> bool" where
  "is_word c =
     (let n = (of_char c :: nat)
      in (48 \<le> n \<and> n \<le> 57) \<or> (65 \<le> n \<and> n \<le> 90) \<or> n = 95 \<or> (97 \<le> n \<and> n \<le> 122)
         \<or> n = 170 \<or> n = 178 \<or> n = 179 \<or> n = 181 \<or> n = 185 \<or> n = 186
         \<or> (188 \<le> n \<and> n \<le> 190) \<or> (192 \<le> n \<and> n \<le> 214) \<or> (216 \<le> n \<and> n \<le> 246)
         \<or> (248 \<le> n \<and> n \<le> 255))"

definition py_lower :: "string \<Rightarrow> string" where
  "py_lower s = map lower_char s"

definition py_strip :: "string \<Rightarrow> string" where
  "py_strip s = rev (dropWhile is_space (rev (dropWhile is_space s)))"

definition startswith :: "string \<Rightarrow> string \<Rightarrow> bool" where
  "startswith s p = (take (length p) s = p)"

text \<open>\<open>s.split('\n')\<close>: never the empty list; the empty string gives one empty line.\<close>

fun py_split_nl :: "string \<Rightarrow> string list" where
  "py_split_nl [] = [[]]"
| "py_split_nl (c # cs) =
     (if c = CHR 0x0A then [] # py_split_nl cs
      else (case py_split_nl cs of
              [] \<Rightarrow> [[c]]
            | l # ls \<Rightarrow> (c # l) # ls))"

text \<open>\<open>'\n'.join(xs)\<close>\<close>

fun py_join_nl :: "string list \<Rightarrow> string" where
  "py_join_nl [] = []"
| "py_join_nl [x] = x"
| "py_join_nl (x # y # ys) = x @ CHR 0x0A # py_join_nl (y # ys)"

text \<open>\<open>s.find(sub)\<close>: the lowest index where \<open>sub\<close> occurs, \<open>-1\<close> when it does not.\<close>

fun find_from :: "string \<Rightarrow> string \<Rightarrow> int \<Rightarrow> int" where
  "find_from [] sub k = (if sub = [] then k else - 1)"
| "find_from (c # s) sub k =
     (if startswith (c # s) sub then k else find_from s sub (k + 1))"

definition py_find :: "string \<Rightarrow> string \<Rightarrow> int" where
  "py_find s sub = find_from s sub 0"

text \<open>\<open>sub in s\<close>\<close>

fun py_in :: "string \<Rightarrow> string \<Rightarrow> bool" where
  "py_in sub [] = (sub = [])"
| "py_in sub (c # s) = (startswith (c # s) sub \<or> py_in sub s)"

text \<open>
  \<open>s[a:b]\<close> for integers \<open>a\<close> and \<open>b\<close>: a negative bound counts from the end, and both
  bounds are clipped to the string.
\<close>

definition slice_bound :: "nat \<Rightarrow> int \<Rightarrow> nat" where
  "slice_bound n a =
     (let a' = (if a < 0 then a + int n else a)
      in if a' < 0 then 0 else if int n < a' then n else nat a')"

definition py_slice :: "string \<Rightarrow> int \<Rightarrow> int \<Rightarrow> string" where
  "py_slice s a b = drop (slice_bound (length s) a) (take (slice_bound (length s) b) s)"

text \<open>\<open>str(n)\<close> for an integer.\<close>

definition digit_char :: "nat \<Rightarrow> char" where
  "digit_char d = ''0123456789'' ! d"

fun nat_digits :: "nat \<Rightarrow> string" where
  "nat_digits n = (if n < 10 then [digit_char n] else nat_digits (n div 10) @ [digit_char (n mod 10)])"

declare nat_digits.simps [simp del]

definition py_str :: "int \<Rightarrow> string" where
  "py_str i = (if i < 0 then CHR ''-'' # nat_digits (nat (- i)) else nat_digits (nat i))"

section \<open>Data model\<close>

record ReferenceCardRow =
  r_description :: string
  r_code :: string

datatype block_type = TText | TCode | TTable | TCalculation | TList | TCheckbox | TReference

text \<open>
  \<open>Block\<close>. The importer also keeps a block as a dictionary with the same keys; a key that
  the dictionary does not have is the \<open>None\<close> of the optional field.
\<close>

record Block =
  b_id :: string
  b_type :: block_type
  b_title :: "string option"
  b_content :: string
  b_x :: int
  b_y :: int
  b_w :: int
  b_h :: int
  b_language :: "string option"
  b_referenceData :: "ReferenceCardRow list option"

datatype title_size = Sm | Md | Lg | Xl

record Section =
  s_id :: string
  s_title :: string
  s_titleColor :: "string option"
  s_titleSize :: "title_size option"
  s_blocks :: "Block list"

text \<open>
  \<open>Cheatsheet\<close>. The fields \<open>created\<close> and \<open>updated\<close> hold the text of a clock reading and
  are left out: nothing below reads them.
\<close>

record Cheatsheet =
  c_id :: string
  c_name :: string
  c_sections :: "Section list"

section \<open>Search\<close>

text \<open>
  One entry of the result list of \<open>search_cheatsheets\<close>; the constructor is the value of
  its \<open>type\<close> key, the last argument its \<open>match\<close> key. The arguments before are
  \<open>cheatsheet_id\<close>, \<open>cheatsheet_name\<close>, \<open>section_title\<close>, \<open>block_type\<close>, \<open>block_title\<close>.
\<close>

datatype search_match =
    CheatsheetMatch string string string
  | SectionMatch string string string string
  | BlockMatch string string string block_type "string option" string

text \<open>The context snippet of a block (lines 539 to 547 of \<open>main.py\<close>).\<close>

definition snippet :: "string \<Rightarrow> string \<Rightarrow> string" where
  "snippet content query =
     (let content_lower = py_lower content;
          match_index = py_find content_lower query;
          start = max 0 (match_index - 50);
          end = min (int (length content)) (match_index + int (length query) + 50);
          snip = py_slice content start end;
          snip = (if start > 0 then ''...'' @ snip else snip);
          snip = (if end < int (length content) then snip @ ''...'' else snip)
      in snip)"

text \<open>The truth value of \<open>block.title and query in block.title.lower()\<close>.\<close>

definition title_hit :: "string \<Rightarrow> string option \<Rightarrow> bool" where
  "title_hit query title =
     (case title of None \<Rightarrow> False | Some t \<Rightarrow> t \<noteq> [] \<and> py_in query (py_lower t))"

text \<open>The body of each of the three nested loops; \<open>results\<close> is the list appended to.\<close>

definition search_block ::
  "Cheatsheet \<Rightarrow> Section \<Rightarrow> string \<Rightarrow> search_match list \<Rightarrow> Block \<Rightarrow> search_match list" where
  "search_block cs section query results block =
     (if py_in query (py_lower (b_content block)) \<or> title_hit query (b_title block)
      then results @ [BlockMatch (c_id cs) (c_name cs) (s_title section) (b_type block)
                        (b_title block) (snippet (b_content block) query)]
      else results)"

definition search_section ::
  "Cheatsheet \<Rightarrow> string \<Rightarrow> search_match list \<Rightarrow> Section \<Rightarrow> search_match list" where
  "search_section cs query results section =
     (let results = (if py_in query (py_lower (s_title section))
                     then results @ [SectionMatch (c_id cs) (c_name cs) (s_title section)
                                       (s_title section)]
                     else results)
      in foldl (search_block cs section query) results (s_blocks section))"

definition search_cheatsheet ::
  "string \<Rightarrow> search_match list \<Rightarrow> Cheatsheet \<Rightarrow> search_match list" where
  "search_cheatsheet query results cs =
     (let results = (if py_in query (py_lower (c_name cs))
                     then results @ [CheatsheetMatch (c_id cs) (c_name cs) (c_name cs)]
                     else results)
      in foldl (search_section cs query) results (c_sections cs))"

text \<open>
  \<open>search_cheatsheets(q)\<close>; the documents that \<open>load_all_cheatsheets()\<close> reads from the
  store are the first argument.
\<close>

definition search_cheatsheets :: "Cheatsheet list \<Rightarrow> string \<Rightarrow> search_match list" where
  "search_cheatsheets cheatsheets q =
     (if q = [] \<or> length q < 2 then []
      else (let query = py_lower q
            in foldl (search_cheatsheet query) [] cheatsheets))"

section \<open>Markdown import\<close>

abbreviation NL :: char where
  "NL \<equiv> CHR 0x0A"

text \<open>
  \<open>clock k\<close> is the value of \<open>int(datetime.now().timestamp() * 1000)\<close> at the \<open>k\<close>-th reading
  of the clock in one call of the importer; the state counts the readings in \<open>reads\<close>.

  The local variables of \<open>parse_markdown_to_cheatsheet\<close>. The index \<open>i\<close> is only ever
  increased and \<open>lines\<close> is never written, so the lines from \<open>i\<close> on are an argument of the
  loop instead. At the head of the loop \<open>current_block\<close> is \<open>None\<close> or a dictionary: the
  \<open>Block\<close> object of the code branch is dropped from the variable before the branch ends.
\<close>

record parse_state =
  sections :: "Section list"
  current_section :: "Section option"
  current_block :: "Block option"
  block_counter :: int
  reads :: nat

text \<open>
  \<open>if current_block and current_section: current_section.blocks.append(current_block)\<close>.
  A \<open>Section\<close> object and a dictionary with keys are both true.
\<close>

definition flush_block :: "parse_state \<Rightarrow> parse_state" where
  "flush_block st =
     (case current_section st of
        None \<Rightarrow> st
      | Some sec \<Rightarrow>
          (case current_block st of
             None \<Rightarrow> st
           | Some blk \<Rightarrow> st\<lparr>current_section := Some (sec\<lparr>s_blocks := s_blocks sec @ [blk]\<rparr>)\<rparr>))"

text \<open>\<open>if current_section: sections.append(current_section)\<close>\<close>

definition flush_section :: "parse_state \<Rightarrow> parse_state" where
  "flush_section st =
     (case current_section st of
        None \<Rightarrow> st
      | Some sec \<Rightarrow> st\<lparr>sections := sections st @ [sec]\<rparr>)"

definition new_section :: "string \<Rightarrow> string \<Rightarrow> Section" where
  "new_section section_id title =
     \<lparr>s_id = section_id, s_title = title, s_titleColor = None, s_titleSize = None,
      s_blocks = []\<rparr>"

text \<open>Lines 166 to 179: a line that starts with \<open>## \<close>.\<close>

definition on_h2 :: "(nat \<Rightarrow> int) \<Rightarrow> parse_state \<Rightarrow> string \<Rightarrow> parse_state" where
  "on_h2 clock st line =
     (let st1 = (if current_section st \<noteq> None \<and> current_block st \<noteq> None
                 then (flush_block st)\<lparr>current_block := None\<rparr> else st);
          st2 = flush_section st1;
          section_id = ''sec_'' @ py_str (clock (reads st2)) @ ''_''
                         @ py_str (int (length (sections st2)))
      in st2\<lparr>current_section := Some (new_section section_id (py_strip (drop 3 line))),
             reads := reads st2 + 1\<rparr>)"

text \<open>Lines 182 to 197: a line that starts with \<open>### \<close>.\<close>

definition on_h3 :: "string \<Rightarrow> parse_state \<Rightarrow> string \<Rightarrow> parse_state" where
  "on_h3 cheatsheet_id st line =
     (let st1 = flush_block st;
          block_title = py_strip (drop 4 line);
          n = block_counter st1 + 1
      in st1\<lparr>block_counter := n,
             current_block := Some
               \<lparr>b_id = ''block_'' @ cheatsheet_id @ ''_'' @ py_str n, b_type = TText,
                b_title = Some block_title, b_content = [], b_x = 0, b_y = n - 1, b_w = 6,
                b_h = 2, b_language = None, b_referenceData = None\<rparr>\<rparr>)"

text \<open>
  \<open>re.match(r'```(\w+)?', line)\<close>: \<open>None\<close> when the line does not start with the marker,
  else the match object, given by its \<open>group(1)\<close>: the longest run of word characters after
  the marker, \<open>None\<close> when that run is empty.
\<close>

definition lang_match :: "string \<Rightarrow> string option option" where
  "lang_match line =
     (if startswith line ''```''
      then (let g = takeWhile is_word (drop 3 line) in Some (if g = [] then None else Some g))
      else None)"

definition fence_language :: "string \<Rightarrow> string" where
  "fence_language line =
     (case lang_match line of
        Some (Some g) \<Rightarrow> (if g \<noteq> [] then g else ''text'')
      | _ \<Rightarrow> ''text'')"

text \<open>
  Lines 200 to 227: a line that starts with the fence marker; \<open>code_lines\<close> are the lines the
  inner loop has collected.
\<close>

definition on_fence :: "string \<Rightarrow> parse_state \<Rightarrow> string \<Rightarrow> string list \<Rightarrow> parse_state" where
  "on_fence cheatsheet_id st line code_lines =
     (let st1 = flush_block st;
          language = fence_language line;
          n = block_counter st1 + 1;
          blk = \<lparr>b_id = ''block_'' @ cheatsheet_id @ ''_'' @ py_str n, b_type = TCode,
                 b_title = None, b_content = py_join_nl code_lines, b_x = 0, b_y = n - 1,
                 b_w = 6, b_h = 3, b_language = Some language, b_referenceData = None\<rparr>;
          st2 = st1\<lparr>block_counter := n\<rparr>;
          st3 = (case current_section st2 of
                   None \<Rightarrow> st2
                 | Some sec \<Rightarrow>
                     st2\<lparr>current_section := Some (sec\<lparr>s_blocks := s_blocks sec @ [blk]\<rparr>)\<rparr>)
      in st3\<lparr>current_block := None\<rparr>)"

text \<open>Lines 230 to 252: any other line that is not blank.\<close>

definition on_text :: "(nat \<Rightarrow> int) \<Rightarrow> string \<Rightarrow> parse_state \<Rightarrow> string \<Rightarrow> parse_state" where
  "on_text clock cheatsheet_id st line =
     (let st1 = (case current_section st of
                   None \<Rightarrow>
                     st\<lparr>current_section := Some
                           (new_section (''sec_'' @ py_str (clock (reads st)) @ ''_0'')
                              ''Imported Content''),
                        reads := reads st + 1\<rparr>
                 | Some sec \<Rightarrow> st)
      in (case current_block st1 of
            None \<Rightarrow>
              (let n = block_counter st1 + 1
               in st1\<lparr>block_counter := n,
                      current_block := Some
                        \<lparr>b_id = ''block_'' @ cheatsheet_id @ ''_'' @ py_str n, b_type = TText,
                         b_title = None, b_content = line, b_x = 0, b_y = n - 1, b_w = 6,
                         b_h = 2, b_language = None, b_referenceData = None\<rparr>\<rparr>)
          | Some blk \<Rightarrow>
              st1\<lparr>current_block := Some (blk\<lparr>b_content := b_content blk @ NL # line\<rparr>)\<rparr>))"

text \<open>
  The loop of lines 162 to 254 on the lines not yet read. The code branch reads on to the
  next line that starts with the marker and the step at the end of the body skips that line.
\<close>

function parse_lines ::
  "(nat \<Rightarrow> int) \<Rightarrow> string \<Rightarrow> parse_state \<Rightarrow> string list \<Rightarrow> parse_state" where
  "parse_lines clock cheatsheet_id st [] = st"
| "parse_lines clock cheatsheet_id st (line # rest) =
     (if startswith line ''## '' then
        parse_lines clock cheatsheet_id (on_h2 clock st line) rest
      else if startswith line ''### '' then
        parse_lines clock cheatsheet_id (on_h3 cheatsheet_id st line) rest
      else if startswith line ''```'' then
        parse_lines clock cheatsheet_id
          (on_fence cheatsheet_id st line (takeWhile (\<lambda>l. \<not> startswith l ''```'') rest))
          (drop 1 (dropWhile (\<lambda>l. \<not> startswith l ''```'') rest))
      else if py_strip line \<noteq> [] then
        parse_lines clock cheatsheet_id (on_text clock cheatsheet_id st line) rest
      else parse_lines clock cheatsheet_id st rest)"
  by pat_completeness auto
termination
  apply (relation "measure (\<lambda>(clock, cheatsheet_id, st, ls). length ls)")
  apply (simp_all add: less_Suc_eq_le)
  apply (rule le_trans [OF diff_le_self length_dropWhile_le])
  done

text \<open>Lines 256 to 280: what follows the loop.\<close>

definition finish :: "(nat \<Rightarrow> int) \<Rightarrow> string \<Rightarrow> string \<Rightarrow> parse_state \<Rightarrow> Cheatsheet" where
  "finish clock cheatsheet_id name st =
     (let st1 = flush_section (flush_block st);
          st2 = (if sections st1 = []
                 then st1\<lparr>sections :=
                            [new_section (''sec_'' @ py_str (clock (reads st1)) @ ''_0'')
                               ''Imported Content''],
                          reads := reads st1 + 1\<rparr>
                 else st1)
      in \<lparr>c_id = cheatsheet_id, c_name = name, c_sections = sections st2\<rparr>)"

definition initial_state :: parse_state where
  "initial_state =
     \<lparr>sections = [], current_section = None, current_block = None, block_counter = 0,
      reads = 1\<rparr>"

definition parse_markdown_to_cheatsheet :: "(nat \<Rightarrow> int) \<Rightarrow> string \<Rightarrow> string \<Rightarrow> Cheatsheet" where
  "parse_markdown_to_cheatsheet clock markdown_content name =
     (let cheatsheet_id = ''cs_'' @ py_str (clock 0)
      in finish clock cheatsheet_id name
           (parse_lines clock cheatsheet_id initial_state (py_split_nl markdown_content)))"

section \<open>Search, as the specification words it\<close>

text \<open>
  The matches of one block, one section and one document, in the order the specification
  gives: the document's name first, then each section's title followed by its blocks.
\<close>

definition spec_block_matches :: "Cheatsheet \<Rightarrow> Section \<Rightarrow> string \<Rightarrow> Block \<Rightarrow> search_match list" where
  "spec_block_matches cs section query block =
     (if py_in query (py_lower (b_content block)) \<or> title_hit query (b_title block)
      then [BlockMatch (c_id cs) (c_name cs) (s_title section) (b_type block)
              (b_title block) (snippet (b_content block) query)]
      else [])"

definition spec_section_matches :: "Cheatsheet \<Rightarrow> string \<Rightarrow> Section \<Rightarrow> search_match list" where
  "spec_section_matches cs query section =
     (if py_in query (py_lower (s_title section))
      then [SectionMatch (c_id cs) (c_name cs) (s_title section) (s_title section)]
      else [])
     @ concat (map (spec_block_matches cs section query) (s_blocks section))"

definition spec_cheatsheet_matches :: "string \<Rightarrow> Cheatsheet \<Rightarrow> search_match list" where
  "spec_cheatsheet_matches query cs =
     (if py_in query (py_lower (c_name cs))
      then [CheatsheetMatch (c_id cs) (c_name cs) (c_name cs)]
      else [])
     @ concat (map (spec_section_matches cs query) (c_sections cs))"


section \<open>Example documents\<close>

definition example_block :: Block where
  "example_block =
     \<lparr>b_id = ''b1'', b_type = TText, b_title = Some ''Caching'',
      b_content = ''0123456789 0123456789 0123456789 0123456789 0123456789 the Cache is warm 0123456789 0123456789 0123456789 0123456789 0123456789 0123456789'',
      b_x = 0, b_y = 0, b_w = 6, b_h = 2, b_language = None, b_referenceData = None\<rparr>"

definition example_title_block :: Block where
  "example_title_block =
     \<lparr>b_id = ''b2'', b_type = TCode, b_title = Some ''Go modules'',
      b_content = ''0123456789 0123456789 0123456789 0123456789 0123456789 0123456789'',
      b_x = 0, b_y = 1, b_w = 6, b_h = 3, b_language = Some ''text'', b_referenceData = None\<rparr>"

definition example_section :: Section where
  "example_section =
     \<lparr>s_id = ''s1'', s_title = ''Going further'', s_titleColor = None, s_titleSize = None,
      s_blocks = [example_block, example_title_block]\<rparr>"

definition example_doc :: Cheatsheet where
  "example_doc = \<lparr>c_id = ''cs_1'', c_name = ''Go Basics'', c_sections = [example_section]\<rparr>"

section \<open>Example inputs of the importer\<close>

definition example_markdown :: string where
  "example_markdown =
     ''## API'' @ NL # ''### Auth'' @ NL # ''```python'' @ NL # ''x = 1'' @ NL # ''```'' @ [NL]"


definition two_fences_markdown :: string where
  "two_fences_markdown =
     ''```'' @ NL # ''a'' @ NL # ''```'' @ NL # ''### T'' @ NL # ''```sh'' @ NL # ''ls'' @ NL
     # ''```'' @ NL # ''## S'' @ NL # ''text''"

section \<open>Lines read before any section\<close>

text \<open>
  A section is created by a \<open>## \<close> header (line 175) and by a non-blank line of plain text
  (line 234), and by nothing else. \<open>blocks_before_section ls\<close> reads the lines \<open>ls\<close> with the
  tests of the loop, in their order: it is \<open>None\<close> when one of the lines read creates a section
  or when a fence of \<open>ls\<close> is not closed within \<open>ls\<close>, and otherwise the number of times the
  counter is incremented: once for each \<open>### \<close> header and once for each fenced block, whose
  lines up to the closing fence are skipped as the inner loop skips them.
\<close>

function blocks_before_section :: "string list \<Rightarrow> nat option" where
  "blocks_before_section [] = Some 0"
| "blocks_before_section (line # rest) =
     (if startswith line ''## '' then None
      else if startswith line ''### '' then map_option Suc (blocks_before_section rest)
      else if startswith line ''```'' then
        (case dropWhile (\<lambda>l. \<not> startswith l ''```'') rest of
           [] \<Rightarrow> None
         | closing # after \<Rightarrow> map_option Suc (blocks_before_section after))
      else if py_strip line \<noteq> [] then None
      else blocks_before_section rest)"
  by pat_completeness auto
termination
proof (relation "measure length", goal_cases)
  case 1
  then show ?case by simp
next
  case (2 line rest)
  then show ?case by simp
next
  case (3 line rest closing after)
  have "length (dropWhile (\<lambda>l. \<not> startswith l ''```'') rest) \<le> length rest"
    by (rule length_dropWhile_le)
  with 3 show ?case by simp
next
  case (4 line rest)
  then show ?case by simp
qed

section \<open>Views of the importer's state\<close>

text \<open>
  The blocks appended to a section so far, in document order, and the blocks that
  \<open>flush_block\<close> appends. \<open>text_block\<close> and \<open>code_block\<close> are the two dictionaries and the
  \<open>Block\<close> that the branches build, as functions of the counter value.
\<close>

definition emitted :: "parse_state \<Rightarrow> Block list" where
  "emitted st =
     concat (map s_blocks (sections st))
     @ (case current_section st of None \<Rightarrow> [] | Some sec \<Rightarrow> s_blocks sec)"

definition flushed :: "parse_state \<Rightarrow> Block list" where
  "flushed st =
     (case current_section st of
        None \<Rightarrow> []
      | Some sec \<Rightarrow> (case current_block st of None \<Rightarrow> [] | Some blk \<Rightarrow> [blk]))"

definition text_block :: "string \<Rightarrow> int \<Rightarrow> string option \<Rightarrow> string \<Rightarrow> Block" where
  "text_block cid n title content =
     \<lparr>b_id = ''block_'' @ cid @ ''_'' @ py_str n, b_type = TText, b_title = title,
      b_content = content, b_x = 0, b_y = n - 1, b_w = 6, b_h = 2, b_language = None,
      b_referenceData = None\<rparr>"

definition code_block :: "string \<Rightarrow> int \<Rightarrow> string \<Rightarrow> string \<Rightarrow> Block" where
  "code_block cid n content language =
     \<lparr>b_id = ''block_'' @ cid @ ''_'' @ py_str n, b_type = TCode, b_title = None,
      b_content = content, b_x = 0, b_y = n - 1, b_w = 6, b_h = 3, b_language = Some language,
      b_referenceData = None\<rparr>"

definition all_blocks :: "Cheatsheet \<Rightarrow> Block list" where
  "all_blocks doc = concat (map s_blocks (c_sections doc))"

text \<open>
  The invariant of the loop on counter, layout and language: every block appended so far
  has the fixed layout values of its type, an id made from its own slot, a slot at or above
  \<open>lo\<close> and below the counter, the slots increase along the document, and the block in
  progress holds the newest slot. \<open>L\<close> is the set of input lines.
\<close>

definition block_ok :: "string set \<Rightarrow> string \<Rightarrow> Block \<Rightarrow> bool" where
  "block_ok L cid b =
     (b_x b = 0 \<and> b_w b = 6
      \<and> (b_type b = TText \<and> b_h b = 2 \<and> b_language b = None
         \<or> b_type b = TCode \<and> b_h b = 3
            \<and> (\<exists>line\<in>L. startswith line ''```'' \<and> b_language b = Some (fence_language line)))
      \<and> b_id b = ''block_'' @ cid @ ''_'' @ py_str (b_y b + 1))"

definition cinv :: "string set \<Rightarrow> int \<Rightarrow> string \<Rightarrow> Block list \<Rightarrow> Block option \<Rightarrow> int \<Rightarrow> bool" where
  "cinv L lo cid es cb n =
     (lo \<le> n
      \<and> (\<forall>b\<in>set es. block_ok L cid b \<and> lo \<le> b_y b \<and> b_y b < n)
      \<and> sorted_wrt (<) (map b_y es)
      \<and> (case cb of
            None \<Rightarrow> True
          | Some blk \<Rightarrow> block_ok L cid blk \<and> lo \<le> b_y blk \<and> b_y blk = n - 1
                        \<and> (\<forall>b\<in>set es. b_y b < b_y blk)))"

definition counter_inv :: "string set \<Rightarrow> int \<Rightarrow> string \<Rightarrow> parse_state \<Rightarrow> bool" where
  "counter_inv L lo cid st = cinv L lo cid (emitted st) (current_block st) (block_counter st)"

section \<open>Markdown export\<close>

datatype http_error = HTTPException nat string

text \<open>
  The body of \<open>export_cheatsheet_markdown\<close> after the document is loaded: each loop appends
  to \<open>md_lines\<close>, and the text is the elements joined by a line break.
\<close>

definition reference_row :: "string list \<Rightarrow> ReferenceCardRow \<Rightarrow> string list" where
  "reference_row md_lines row =
     md_lines @ [''| '' @ r_description row @ '' | `'' @ r_code row @ ''` |'' @ [NL]]"

definition export_block :: "string list \<Rightarrow> Block \<Rightarrow> string list" where
  "export_block md_lines block =
     (let md_lines = (case b_title block of
                        None \<Rightarrow> md_lines
                      | Some t \<Rightarrow> (if t \<noteq> [] then md_lines @ [NL # ''### '' @ t @ [NL]]
                                  else md_lines))
      in (case b_type block of
            TText \<Rightarrow> md_lines @ [NL # b_content block @ [NL]]
          | TCode \<Rightarrow>
              (let lang = (case b_language block of
                             None \<Rightarrow> ''text''
                           | Some l \<Rightarrow> (if l \<noteq> [] then l else ''text''))
               in md_lines @ [NL # ''```'' @ lang @ NL # b_content block @ NL # ''```'' @ [NL]])
          | TTable \<Rightarrow> md_lines @ [NL # b_content block @ [NL]]
          | TList \<Rightarrow> md_lines @ [NL # b_content block @ [NL]]
          | TCheckbox \<Rightarrow> md_lines @ [NL # b_content block @ [NL]]
          | TCalculation \<Rightarrow> md_lines @ [NL # ''```'' @ NL # b_content block @ NL # ''```'' @ [NL]]
          | TReference \<Rightarrow>
              (case b_referenceData block of
                 None \<Rightarrow> md_lines
               | Some rows \<Rightarrow>
                   (if rows \<noteq> []
                    then foldl reference_row
                           (md_lines @ [NL # ''| Description | Code |'' @ [NL],
                                        ''|-------------|------|'' @ [NL]]) rows
                    else md_lines))))"

definition export_section :: "string list \<Rightarrow> Section \<Rightarrow> string list" where
  "export_section md_lines section =
     foldl export_block (md_lines @ [NL # ''## '' @ s_title section @ [NL]]) (s_blocks section)"

definition export_markdown :: "Cheatsheet \<Rightarrow> string" where
  "export_markdown cs =
     py_join_nl (foldl export_section [''# '' @ c_name cs @ [NL]] (c_sections cs))"


text \<open>
  The endpoint looks the document up by its id in the store; a missing document is the
  404 response. The content of the other response is the markdown text.
\<close>

definition export_cheatsheet_markdown ::
  "(string \<rightharpoonup> Cheatsheet) \<Rightarrow> string \<Rightarrow> http_error + string" where
  "export_cheatsheet_markdown store cheatsheet_id =
     (case store cheatsheet_id of
        None \<Rightarrow> Inl (HTTPException 404 ''Cheatsheet not found'')
      | Some cs \<Rightarrow> Inr (export_markdown cs))"


section \<open>The structure of a document\<close>

text \<open>
  What a round trip can keep: the titles of the sections in order and, for each block in
  order, its title, type, content and language. Ids, layout and clock readings are left out.
\<close>

type_synonym bview = "string option \<times> block_type \<times> string \<times> string option"

type_synonym sview = "string \<times> bview list"

type_synonym pview = "sview list \<times> sview option \<times> bview option"

definition block_view :: "Block \<Rightarrow> string option \<times> block_type \<times> string \<times> string option" where
  "block_view b = (b_title b, b_type b, b_content b, b_language b)"

definition section_view ::
  "Section \<Rightarrow> string \<times> (string option \<times> block_type \<times> string \<times> string option) list" where
  "section_view s = (s_title s, map block_view (s_blocks s))"

definition doc_structure ::
  "Cheatsheet \<Rightarrow> (string \<times> (string option \<times> block_type \<times> string \<times> string option) list) list" where
  "doc_structure doc = map section_view (c_sections doc)"

definition state_view :: "parse_state \<Rightarrow> pview" where
  "state_view st =
     (map section_view (sections st), map_option section_view (current_section st),
      map_option block_view (current_block st))"


text \<open>
  The importer on that structure: the same branches as \<open>on_h2\<close>, \<open>on_h3\<close>, \<open>on_fence\<close>,
  \<open>on_text\<close>, \<open>parse_lines\<close> and \<open>finish\<close>, without ids, counter and clock. The lemmas
  \<open>state_view_parse_lines\<close> and \<open>doc_structure_import\<close> below show that it is the structure
  of what the importer builds.
\<close>

fun v_close :: "sview \<Rightarrow> bview option \<Rightarrow> sview" where
  "v_close (t, bs) None = (t, bs)"
| "v_close (t, bs) (Some b) = (t, bs @ [b])"

fun v_append :: "sview \<Rightarrow> bview \<Rightarrow> sview" where
  "v_append (t, bs) b = (t, bs @ [b])"

fun v_on_h2 :: "pview \<Rightarrow> string \<Rightarrow> pview" where
  "v_on_h2 (secs, None, blk) line = (secs, Some (py_strip (drop 3 line), []), blk)"
| "v_on_h2 (secs, Some s, blk) line =
     (secs @ [v_close s blk], Some (py_strip (drop 3 line), []), None)"

fun v_on_h3 :: "pview \<Rightarrow> string \<Rightarrow> pview" where
  "v_on_h3 (secs, cur, blk) line =
     (secs, map_option (\<lambda>s. v_close s blk) cur,
      Some (Some (py_strip (drop 4 line)), TText, [], None))"

fun v_on_fence :: "pview \<Rightarrow> string \<Rightarrow> string list \<Rightarrow> pview" where
  "v_on_fence (secs, cur, blk) line code_lines =
     (secs,
      map_option (\<lambda>s. v_append (v_close s blk)
                         (None, TCode, py_join_nl code_lines, Some (fence_language line))) cur,
      None)"

fun v_on_text :: "pview \<Rightarrow> string \<Rightarrow> pview" where
  "v_on_text (secs, cur, blk) line =
     (secs,
      (case cur of None \<Rightarrow> Some (''Imported Content'', []) | Some s \<Rightarrow> Some s),
      (case blk of
         None \<Rightarrow> Some (None, TText, line, None)
       | Some (t, ty, c, l) \<Rightarrow> Some (t, ty, c @ NL # line, l)))"

function v_parse_lines :: "pview \<Rightarrow> string list \<Rightarrow> pview" where
  "v_parse_lines v [] = v"
| "v_parse_lines v (line # rest) =
     (if startswith line ''## '' then v_parse_lines (v_on_h2 v line) rest
      else if startswith line ''### '' then v_parse_lines (v_on_h3 v line) rest
      else if startswith line ''```'' then
        v_parse_lines
          (v_on_fence v line (takeWhile (\<lambda>l. \<not> startswith l ''```'') rest))
          (drop 1 (dropWhile (\<lambda>l. \<not> startswith l ''```'') rest))
      else if py_strip line \<noteq> [] then v_parse_lines (v_on_text v line) rest
      else v_parse_lines v rest)"
  by pat_completeness auto
termination
  apply (relation "measure (\<lambda>(v, ls). length ls)")
  apply (simp_all add: less_Suc_eq_le)
  apply (rule le_trans [OF diff_le_self length_dropWhile_le])
  done

fun v_finish :: "pview \<Rightarrow> sview list" where
  "v_finish (secs, cur, blk) =
     (let all = secs @ (case cur of None \<Rightarrow> [] | Some s \<Rightarrow> [v_close s blk])
      in if all = [] then [(''Imported Content'', [])] else all)"

definition v_import :: "string \<Rightarrow> sview list" where
  "v_import markdown_content = v_finish (v_parse_lines ([], None, None) (py_split_nl markdown_content))"


text \<open>
  The shape of every imported document. A plain line is one that the loop takes as text.
  The content of an untitled text block is plain lines joined by line breaks; a titled one
  has a line break before each plain line; the lines of a code block do not start with the
  fence marker and its language is a non-empty word. An untitled text block never follows
  another text block in its section.
\<close>

definition plain :: "string \<Rightarrow> bool" where
  "plain l = (\<not> startswith l ''## '' \<and> \<not> startswith l ''### '' \<and> \<not> startswith l ''```''
              \<and> py_strip l \<noteq> [] \<and> NL \<notin> set l)"

fun wf_bview :: "bview \<Rightarrow> bool" where
  "wf_bview (None, TText, content, lang) = (lang = None \<and> list_all plain (py_split_nl content))"
| "wf_bview (Some t, TText, content, lang) =
     (lang = None \<and> py_strip t = t \<and> NL \<notin> set t \<and> hd (py_split_nl content) = []
      \<and> list_all plain (tl (py_split_nl content)))"
| "wf_bview (title, TCode, content, lang) =
     (title = None \<and> list_all (\<lambda>l. \<not> startswith l ''```'') (py_split_nl content)
      \<and> (case lang of None \<Rightarrow> False | Some g \<Rightarrow> g \<noteq> [] \<and> list_all is_word g))"
| "wf_bview (title, ty, content, lang) = False"

fun untitled_text :: "bview \<Rightarrow> bool" where
  "untitled_text (title, ty, content, lang) = (title = None \<and> ty = TText)"

fun is_code :: "bview \<Rightarrow> bool" where
  "is_code (title, ty, content, lang) = (ty = TCode)"

fun adj :: "bview list \<Rightarrow> bool" where
  "adj (a # b # bs) = ((untitled_text b \<longrightarrow> is_code a) \<and> adj (b # bs))"
| "adj bs = True"

definition fresh :: "bview list \<Rightarrow> bool" where
  "fresh bs = (bs = [] \<or> is_code (last bs))"

fun wf_sview :: "sview \<Rightarrow> bool" where
  "wf_sview (t, bs) = (py_strip t = t \<and> NL \<notin> set t \<and> list_all wf_bview bs \<and> adj bs)"

fun wf_pview :: "pview \<Rightarrow> bool" where
  "wf_pview (secs, cur, blk) =
     (list_all wf_sview secs
      \<and> (case cur of None \<Rightarrow> True | Some s \<Rightarrow> wf_sview s)
      \<and> (case blk of
            None \<Rightarrow> (case cur of None \<Rightarrow> True | Some s \<Rightarrow> fresh (snd s))
          | Some b \<Rightarrow> wf_bview b \<and> \<not> is_code b
                      \<and> (untitled_text b \<longrightarrow> (case cur of None \<Rightarrow> False | Some s \<Rightarrow> fresh (snd s)))))"


text \<open>
  The lines of the exported text of a block and of a section, and the state after the
  importer has read the lines of a block.
\<close>

fun v_block_lines :: "bview \<Rightarrow> string list" where
  "v_block_lines (title, ty, content, lang) =
     (case title of None \<Rightarrow> [] | Some t \<Rightarrow> if t \<noteq> [] then [[], ''### '' @ t, []] else [])
     @ (if ty = TCode
        then [[], ''```'' @ (case lang of None \<Rightarrow> ''text''
                                        | Some g \<Rightarrow> if g \<noteq> [] then g else ''text'')]
             @ py_split_nl content @ [''```'', []]
        else [[]] @ py_split_nl content @ [[]])"

fun v_section_lines :: "sview \<Rightarrow> string list" where
  "v_section_lines (t, bs) = [[], ''## '' @ t, []] @ concat (map v_block_lines bs)"

fun v_add :: "pview \<Rightarrow> bview \<Rightarrow> pview" where
  "v_add (secs, Some s, blk) b =
     (if is_code b then (secs, Some (v_append (v_close s blk) b), None)
      else (secs, Some (v_close s blk), Some b))"
| "v_add (secs, None, blk) b = (secs, None, blk)"


section \<open>An input with an empty block title\<close>

definition empty_title_markdown :: string where
  "empty_title_markdown = ''## S'' @ NL # ''foo'' @ NL # ''### '' @ NL # ''bar''"


section \<open>The importer with Python's failures as values\<close>

text \<open>
  A second embedding of \<open>parse_markdown_to_cheatsheet\<close> (lines 149-280) that keeps the
  distinction the source makes between a dictionary and a validated \<open>Block\<close>, and returns
  every exception the statements of the importer can raise as a value (\<open>Inl\<close>):

  \<^item> \<open>ValidationError\<close>: a constructor of a pydantic model (\<open>Block(...)\<close>, \<open>Section(...)\<close>,
    \<open>Cheatsheet(...)\<close>) is given a missing required field, a value of the wrong type, or a
    \<open>type\<close> outside the \<open>Literal\<close>;
  \<^item> \<open>TypeError\<close>: \<open>current_block["content"]\<close> on a \<open>Block\<close> instance (a model instance is
    not subscriptable), or \<open>+=\<close> of a string to a value that is not a string;
  \<^item> \<open>KeyError\<close>: \<open>current_block["content"]\<close> on a dictionary without that key.

  The values stored in the dictionaries of the importer are strings and integers; a
  dictionary is an association list in insertion order.
\<close>

datatype py_error = TypeError | KeyError | ValidationError

datatype py_value = PyStr string | PyInt int

type_synonym py_dict = "(string \<times> py_value) list"

fun dict_set :: "string \<Rightarrow> py_value \<Rightarrow> py_dict \<Rightarrow> py_dict" where
  "dict_set k v [] = [(k, v)]"
| "dict_set k v ((k', v') # d) = (if k = k' then (k, v) # d else (k', v') # dict_set k v d)"

datatype block_item = DictItem py_dict | BlockItem Block

text \<open>
  \<open>Section.blocks\<close> is a Python list that the loop appends to after the section has been
  built, so it can hold dictionaries (lines 168, 184, 202) as well as \<open>Block\<close> instances
  (lines 226, 259, 261): appending to the list of a model instance validates nothing, and
  \<open>Cheatsheet(sections=...)\<close> does not validate \<open>Section\<close> instances again.
\<close>

record SectionObj =
  so_id :: string
  so_title :: string
  so_titleColor :: "string option"
  so_titleSize :: "title_size option"
  so_blocks :: "block_item list"

record CheatsheetObj =
  co_id :: string
  co_name :: string
  co_sections :: "SectionObj list"

text \<open>
  Validation of the fields of the models (lines 45-73): a required \<open>str\<close> or \<open>int\<close> field must
  be present with that type, an \<open>Optional[str]\<close> field may be absent, and \<open>type\<close> must be one
  of the seven literals. The importer never passes \<open>referenceData\<close>; a dictionary holding it
  with a string or an integer is refused.
\<close>

definition bind_err :: "py_error + 'a \<Rightarrow> ('a \<Rightarrow> py_error + 'b) \<Rightarrow> py_error + 'b" where
  "bind_err m f = (case m of Inl e \<Rightarrow> Inl e | Inr x \<Rightarrow> f x)"

definition req_str :: "py_value option \<Rightarrow> py_error + string" where
  "req_str v = (case v of Some (PyStr s) \<Rightarrow> Inr s | _ \<Rightarrow> Inl ValidationError)"

definition req_int :: "py_value option \<Rightarrow> py_error + int" where
  "req_int v = (case v of Some (PyInt n) \<Rightarrow> Inr n | _ \<Rightarrow> Inl ValidationError)"

definition opt_str :: "py_value option \<Rightarrow> py_error + string option" where
  "opt_str v =
     (case v of None \<Rightarrow> Inr None | Some (PyStr s) \<Rightarrow> Inr (Some s) | Some (PyInt n) \<Rightarrow> Inl ValidationError)"

definition block_type_of :: "string \<Rightarrow> py_error + block_type" where
  "block_type_of s =
     (if s = ''text'' then Inr TText
      else if s = ''code'' then Inr TCode
      else if s = ''table'' then Inr TTable
      else if s = ''calculation'' then Inr TCalculation
      else if s = ''list'' then Inr TList
      else if s = ''checkbox'' then Inr TCheckbox
      else if s = ''reference'' then Inr TReference
      else Inl ValidationError)"

definition Block_new :: "py_dict \<Rightarrow> py_error + Block" where
  "Block_new d =
     bind_err (req_str (map_of d ''id'')) (\<lambda>i.
     bind_err (bind_err (req_str (map_of d ''type'')) block_type_of) (\<lambda>ty.
     bind_err (opt_str (map_of d ''title'')) (\<lambda>title.
     bind_err (req_str (map_of d ''content'')) (\<lambda>content.
     bind_err (req_int (map_of d ''x'')) (\<lambda>x.
     bind_err (req_int (map_of d ''y'')) (\<lambda>y.
     bind_err (req_int (map_of d ''w'')) (\<lambda>w.
     bind_err (req_int (map_of d ''h'')) (\<lambda>h.
     bind_err (opt_str (map_of d ''language'')) (\<lambda>language.
     (case map_of d ''referenceData'' of
        Some v \<Rightarrow> Inl ValidationError
      | None \<Rightarrow>
          Inr \<lparr>b_id = i, b_type = ty, b_title = title, b_content = content, b_x = x, b_y = y,
               b_w = w, b_h = h, b_language = language, b_referenceData = None\<rparr>))))))))))"

definition Section_new :: "py_value \<Rightarrow> py_value \<Rightarrow> py_error + SectionObj" where
  "Section_new i title =
     bind_err (req_str (Some i)) (\<lambda>i'.
     bind_err (req_str (Some title)) (\<lambda>title'.
     Inr \<lparr>so_id = i', so_title = title', so_titleColor = None, so_titleSize = None,
          so_blocks = []\<rparr>))"

definition Cheatsheet_new :: "py_value \<Rightarrow> py_value \<Rightarrow> SectionObj list \<Rightarrow> py_error + CheatsheetObj" where
  "Cheatsheet_new i name secs =
     bind_err (req_str (Some i)) (\<lambda>i'.
     bind_err (req_str (Some name)) (\<lambda>name'.
     Inr \<lparr>co_id = i', co_name = name', co_sections = secs\<rparr>))"

text \<open>
  The variables of the loop. \<open>current_block\<close> is \<open>None\<close>, a dictionary or a \<open>Block\<close>; its
  truth value (\<open>if current_block\<close>) is that of Python: a dictionary is true when it is not
  empty, a model instance is true.
\<close>

record checked_state =
  st_sections :: "SectionObj list"
  st_current_section :: "SectionObj option"
  st_current_block :: "block_item option"
  st_block_counter :: int
  st_reads :: nat

definition truthy :: "block_item option \<Rightarrow> bool" where
  "truthy v = (case v of None \<Rightarrow> False | Some (DictItem d) \<Rightarrow> d \<noteq> [] | Some (BlockItem b) \<Rightarrow> True)"

definition append_block :: "SectionObj \<Rightarrow> block_item \<Rightarrow> SectionObj" where
  "append_block sec item = sec\<lparr>so_blocks := so_blocks sec @ [item]\<rparr>"

definition flush_block_checked :: "checked_state \<Rightarrow> checked_state" where
  "flush_block_checked st =
     (case st_current_section st of
        None \<Rightarrow> st
      | Some sec \<Rightarrow>
          (case st_current_block st of
             None \<Rightarrow> st
           | Some item \<Rightarrow>
               (if truthy (Some item)
                then st\<lparr>st_current_section := Some (append_block sec item)\<rparr>
                else st)))"

definition flush_section_checked :: "checked_state \<Rightarrow> checked_state" where
  "flush_section_checked st =
     (case st_current_section st of
        None \<Rightarrow> st
      | Some sec \<Rightarrow> st\<lparr>st_sections := st_sections st @ [sec]\<rparr>)"

text \<open>The four branches of the loop body, lines 166-252.\<close>

definition on_h2_checked :: "(nat \<Rightarrow> int) \<Rightarrow> checked_state \<Rightarrow> string \<Rightarrow> py_error + checked_state" where
  "on_h2_checked clock st line =
     (let st1 = (if st_current_section st \<noteq> None \<and> truthy (st_current_block st)
                 then (flush_block_checked st)\<lparr>st_current_block := None\<rparr> else st);
          st2 = flush_section_checked st1;
          section_id = ''sec_'' @ py_str (clock (st_reads st2)) @ ''_''
                         @ py_str (int (length (st_sections st2)))
      in bind_err (Section_new (PyStr section_id) (PyStr (py_strip (drop 3 line)))) (\<lambda>sec.
         Inr (st2\<lparr>st_current_section := Some sec, st_reads := st_reads st2 + 1\<rparr>)))"

definition on_h3_checked :: "string \<Rightarrow> checked_state \<Rightarrow> string \<Rightarrow> py_error + checked_state" where
  "on_h3_checked cheatsheet_id st line =
     (let st1 = flush_block_checked st;
          block_title = py_strip (drop 4 line);
          n = st_block_counter st1 + 1
      in Inr (st1\<lparr>st_block_counter := n,
                  st_current_block := Some (DictItem
                    [(''id'', PyStr (''block_'' @ cheatsheet_id @ ''_'' @ py_str n)),
                     (''title'', PyStr block_title),
                     (''content'', PyStr []),
                     (''type'', PyStr ''text''),
                     (''x'', PyInt 0),
                     (''y'', PyInt (n - 1)),
                     (''w'', PyInt 6),
                     (''h'', PyInt 2)])\<rparr>))"

definition on_fence_checked ::
  "string \<Rightarrow> checked_state \<Rightarrow> string \<Rightarrow> string list \<Rightarrow> py_error + checked_state" where
  "on_fence_checked cheatsheet_id st line code_lines =
     (let st1 = flush_block_checked st;
          language = fence_language line;
          n = st_block_counter st1 + 1
      in bind_err (Block_new
                     [(''id'', PyStr (''block_'' @ cheatsheet_id @ ''_'' @ py_str n)),
                      (''type'', PyStr ''code''),
                      (''content'', PyStr (py_join_nl code_lines)),
                      (''language'', PyStr language),
                      (''x'', PyInt 0),
                      (''y'', PyInt (n - 1)),
                      (''w'', PyInt 6),
                      (''h'', PyInt 3)]) (\<lambda>blk.
         (let st2 = st1\<lparr>st_block_counter := n\<rparr>;
              st3 = (case st_current_section st2 of
                       None \<Rightarrow> st2
                     | Some sec \<Rightarrow>
                         st2\<lparr>st_current_section := Some (append_block sec (BlockItem blk))\<rparr>)
          in Inr (st3\<lparr>st_current_block := None\<rparr>))))"

text \<open>
  Line 252, \<open>current_block["content"] += ...\<close>: the subscript is read first, then the string
  is appended and stored back under the same key.
\<close>

definition add_to_content :: "block_item \<Rightarrow> string \<Rightarrow> py_error + block_item" where
  "add_to_content item s =
     (case item of
        BlockItem b \<Rightarrow> Inl TypeError
      | DictItem d \<Rightarrow>
          (case map_of d ''content'' of
             None \<Rightarrow> Inl KeyError
           | Some (PyInt n) \<Rightarrow> Inl TypeError
           | Some (PyStr c) \<Rightarrow> Inr (DictItem (dict_set ''content'' (PyStr (c @ s)) d))))"

definition on_text_checked ::
  "(nat \<Rightarrow> int) \<Rightarrow> string \<Rightarrow> checked_state \<Rightarrow> string \<Rightarrow> py_error + checked_state" where
  "on_text_checked clock cheatsheet_id st line =
     bind_err
       (case st_current_section st of
          None \<Rightarrow>
            bind_err (Section_new (PyStr (''sec_'' @ py_str (clock (st_reads st)) @ ''_0''))
                        (PyStr ''Imported Content'')) (\<lambda>sec.
            Inr (st\<lparr>st_current_section := Some sec, st_reads := st_reads st + 1\<rparr>))
        | Some sec \<Rightarrow> Inr st) (\<lambda>st1.
     (if \<not> truthy (st_current_block st1)
      then (let n = st_block_counter st1 + 1
            in Inr (st1\<lparr>st_block_counter := n,
                        st_current_block := Some (DictItem
                          [(''id'', PyStr (''block_'' @ cheatsheet_id @ ''_'' @ py_str n)),
                           (''content'', PyStr line),
                           (''type'', PyStr ''text''),
                           (''x'', PyInt 0),
                           (''y'', PyInt (n - 1)),
                           (''w'', PyInt 6),
                           (''h'', PyInt 2)])\<rparr>))
      else (case st_current_block st1 of
              None \<Rightarrow> Inr st1
            | Some item \<Rightarrow>
                bind_err (add_to_content item (NL # line)) (\<lambda>item'.
                Inr (st1\<lparr>st_current_block := Some item'\<rparr>)))))"

function parse_lines_checked ::
  "(nat \<Rightarrow> int) \<Rightarrow> string \<Rightarrow> checked_state \<Rightarrow> string list \<Rightarrow> py_error + checked_state" where
  "parse_lines_checked clock cheatsheet_id st [] = Inr st"
| "parse_lines_checked clock cheatsheet_id st (line # rest) =
     (if startswith line ''## '' then
        (case on_h2_checked clock st line of
           Inl e \<Rightarrow> Inl e
         | Inr st' \<Rightarrow> parse_lines_checked clock cheatsheet_id st' rest)
      else if startswith line ''### '' then
        (case on_h3_checked cheatsheet_id st line of
           Inl e \<Rightarrow> Inl e
         | Inr st' \<Rightarrow> parse_lines_checked clock cheatsheet_id st' rest)
      else if startswith line ''```'' then
        (case on_fence_checked cheatsheet_id st line
                (takeWhile (\<lambda>l. \<not> startswith l ''```'') rest) of
           Inl e \<Rightarrow> Inl e
         | Inr st' \<Rightarrow>
             parse_lines_checked clock cheatsheet_id st'
               (drop 1 (dropWhile (\<lambda>l. \<not> startswith l ''```'') rest)))
      else if py_strip line \<noteq> [] then
        (case on_text_checked clock cheatsheet_id st line of
           Inl e \<Rightarrow> Inl e
         | Inr st' \<Rightarrow> parse_lines_checked clock cheatsheet_id st' rest)
      else parse_lines_checked clock cheatsheet_id st rest)"
  by pat_completeness auto
termination
  apply (relation "measure (\<lambda>(clock, cheatsheet_id, st, ls). length ls)")
  apply (simp_all add: less_Suc_eq_le)
  apply (rule le_trans [OF diff_le_self length_dropWhile_le])
  done

text \<open>
  Lines 255-280. A dictionary left in \<open>current_block\<close> is validated by \<open>Block(**current_block)\<close>
  before it is appended.
\<close>

definition finish_checked ::
  "(nat \<Rightarrow> int) \<Rightarrow> string \<Rightarrow> string \<Rightarrow> checked_state \<Rightarrow> py_error + CheatsheetObj" where
  "finish_checked clock cheatsheet_id name st =
     bind_err
       (case st_current_section st of
          None \<Rightarrow> Inr st
        | Some sec \<Rightarrow>
            (case st_current_block st of
               None \<Rightarrow> Inr st
             | Some item \<Rightarrow>
                 (if truthy (Some item)
                  then (case item of
                          DictItem d \<Rightarrow>
                            bind_err (Block_new d) (\<lambda>blk.
                            Inr (st\<lparr>st_current_section :=
                                      Some (append_block sec (BlockItem blk))\<rparr>))
                        | BlockItem b \<Rightarrow>
                            Inr (st\<lparr>st_current_section :=
                                      Some (append_block sec (BlockItem b))\<rparr>))
                  else Inr st))) (\<lambda>st1.
     (let st2 = flush_section_checked st1
      in bind_err
           (if st_sections st2 = []
            then bind_err (Section_new (PyStr (''sec_'' @ py_str (clock (st_reads st2)) @ ''_0''))
                             (PyStr ''Imported Content'')) (\<lambda>sec.
                 Inr (st2\<lparr>st_sections := [sec], st_reads := st_reads st2 + 1\<rparr>))
            else Inr st2) (\<lambda>st3.
         Cheatsheet_new (PyStr cheatsheet_id) (PyStr name) (st_sections st3))))"

definition initial_checked_state :: checked_state where
  "initial_checked_state =
     \<lparr>st_sections = [], st_current_section = None, st_current_block = None,
      st_block_counter = 0, st_reads = 1\<rparr>"

definition parse_markdown_to_cheatsheet_checked ::
  "(nat \<Rightarrow> int) \<Rightarrow> string \<Rightarrow> string \<Rightarrow> py_error + CheatsheetObj" where
  "parse_markdown_to_cheatsheet_checked clock markdown_content name =
     (let cheatsheet_id = ''cs_'' @ py_str (clock 0)
      in bind_err (parse_lines_checked clock cheatsheet_id initial_checked_state
                     (py_split_nl markdown_content))
           (finish_checked clock cheatsheet_id name))"

text \<open>
  The document as the rest of the program reads it: every dictionary among the blocks of a
  section validated as a \<open>Block\<close>.
\<close>

definition block_of_item :: "block_item \<Rightarrow> py_error + Block" where
  "block_of_item item = (case item of DictItem d \<Rightarrow> Block_new d | BlockItem b \<Rightarrow> Inr b)"

fun blocks_of_items :: "block_item list \<Rightarrow> py_error + Block list" where
  "blocks_of_items [] = Inr []"
| "blocks_of_items (item # items) =
     bind_err (block_of_item item) (\<lambda>b.
     bind_err (blocks_of_items items) (\<lambda>bs. Inr (b # bs)))"

definition section_of_obj :: "SectionObj \<Rightarrow> py_error + Section" where
  "section_of_obj sec =
     bind_err (blocks_of_items (so_blocks sec)) (\<lambda>bs.
     Inr \<lparr>s_id = so_id sec, s_title = so_title sec, s_titleColor = so_titleColor sec,
          s_titleSize = so_titleSize sec, s_blocks = bs\<rparr>)"

fun sections_of_objs :: "SectionObj list \<Rightarrow> py_error + Section list" where
  "sections_of_objs [] = Inr []"
| "sections_of_objs (sec # secs) =
     bind_err (section_of_obj sec) (\<lambda>s.
     bind_err (sections_of_objs secs) (\<lambda>ss. Inr (s # ss)))"

definition cheatsheet_of_obj :: "CheatsheetObj \<Rightarrow> py_error + Cheatsheet" where
  "cheatsheet_of_obj doc =
     bind_err (sections_of_objs (co_sections doc)) (\<lambda>ss.
     Inr \<lparr>c_id = co_id doc, c_name = co_name doc, c_sections = ss\<rparr>)"

text \<open>
  The relation between the states of the two embeddings of the loop: a block in progress is
  always a dictionary, with the fields of a text block; the sections agree once their
  dictionaries are validated.
\<close>

definition text_dict :: "Block \<Rightarrow> py_dict" where
  "text_dict b =
     [(''id'', PyStr (b_id b))]
     @ (case b_title b of None \<Rightarrow> [] | Some t \<Rightarrow> [(''title'', PyStr t)])
     @ [(''content'', PyStr (b_content b)), (''type'', PyStr ''text''), (''x'', PyInt 0),
        (''y'', PyInt (b_y b)), (''w'', PyInt 6), (''h'', PyInt 2)]"

definition text_shape :: "Block \<Rightarrow> bool" where
  "text_shape b =
     (b_type b = TText \<and> b_x b = 0 \<and> b_w b = 6 \<and> b_h b = 2 \<and> b_language b = None
      \<and> b_referenceData b = None)"

definition rel_block :: "block_item option \<Rightarrow> Block option \<Rightarrow> bool" where
  "rel_block item blk =
     (case item of
        None \<Rightarrow> blk = None
      | Some (BlockItem b) \<Rightarrow> False
      | Some (DictItem d) \<Rightarrow>
          (case blk of None \<Rightarrow> False | Some b \<Rightarrow> text_shape b \<and> d = text_dict b))"

definition rel_section :: "SectionObj option \<Rightarrow> Section option \<Rightarrow> bool" where
  "rel_section so sec =
     (case so of
        None \<Rightarrow> sec = None
      | Some obj \<Rightarrow> (case sec of None \<Rightarrow> False | Some s \<Rightarrow> section_of_obj obj = Inr s))"

definition rel_state :: "checked_state \<Rightarrow> parse_state \<Rightarrow> bool" where
  "rel_state cst st =
     (sections_of_objs (st_sections cst) = Inr (sections st)
      \<and> rel_section (st_current_section cst) (current_section st)
      \<and> rel_block (st_current_block cst) (current_block st)
      \<and> st_block_counter cst = block_counter st
      \<and> st_reads cst = reads st)"

section \<open>Properties of search\<close>

lemmas ex_defs = example_doc_def example_section_def example_block_def example_title_block_def

lemmas str_defs = py_lower_def lower_char_def is_upper_def startswith_def

lemma foldl_search_block:
  "foldl (search_block cs section query) results bs
     = results @ concat (map (spec_block_matches cs section query) bs)"
  by (induction bs arbitrary: results) (simp_all add: search_block_def spec_block_matches_def)

lemma search_section_eq:
  "search_section cs query results section = results @ spec_section_matches cs query section"
  by (simp add: search_section_def spec_section_matches_def foldl_search_block)

lemma foldl_search_section:
  "foldl (search_section cs query) results ss
     = results @ concat (map (spec_section_matches cs query) ss)"
  by (induction ss arbitrary: results) (simp_all add: search_section_eq)

lemma search_cheatsheet_eq:
  "search_cheatsheet query results cs = results @ spec_cheatsheet_matches query cs"
  by (simp add: search_cheatsheet_def spec_cheatsheet_matches_def foldl_search_section)

lemma foldl_search_cheatsheet:
  "foldl (search_cheatsheet query) results cheatsheets
     = results @ concat (map (spec_cheatsheet_matches query) cheatsheets)"
  by (induction cheatsheets arbitrary: results) (simp_all add: search_cheatsheet_eq)

lemma search_cheatsheets_eq:
  "2 \<le> length q \<Longrightarrow>
   search_cheatsheets cheatsheets q = concat (map (spec_cheatsheet_matches (py_lower q)) cheatsheets)"
  by (auto simp: search_cheatsheets_def foldl_search_cheatsheet)

lemma find_from_in:
  "py_in sub s \<Longrightarrow>
   \<exists>i. find_from s sub k = k + int i \<and> startswith (drop i s) sub
       \<and> (\<forall>j<i. \<not> startswith (drop j s) sub)"
proof (induction s arbitrary: k)
  case Nil
  then show ?case by (simp add: startswith_def)
next
  case (Cons c s)
  show ?case
  proof (cases "startswith (c # s) sub")
    case True
    then have "find_from (c # s) sub k = k + int 0 \<and> startswith (drop 0 (c # s)) sub
       \<and> (\<forall>j<0. \<not> startswith (drop j (c # s)) sub)" by simp
    then show ?thesis by blast
  next
    case False
    with Cons.prems have "py_in sub s" by simp
    from Cons.IH [OF this, of "k + 1"] obtain i where
      i: "find_from s sub (k + 1) = k + 1 + int i" "startswith (drop i s) sub"
         "\<forall>j<i. \<not> startswith (drop j s) sub" by blast
    have "\<forall>j<Suc i. \<not> startswith (drop j (c # s)) sub"
    proof (intro allI impI)
      fix j assume "j < Suc i"
      then show "\<not> startswith (drop j (c # s)) sub"
        using False i(3) by (cases j) simp_all
    qed
    with False i(1,2) have "find_from (c # s) sub k = k + int (Suc i)
        \<and> startswith (drop (Suc i) (c # s)) sub
        \<and> (\<forall>j<Suc i. \<not> startswith (drop j (c # s)) sub)" by simp
    then show ?thesis by blast
  qed
qed

lemma find_from_notin: "\<not> py_in sub s \<Longrightarrow> find_from s sub k = - 1"
  by (induction s arbitrary: k) auto

lemma py_slice_nonneg:
  "0 \<le> a \<Longrightarrow> 0 \<le> b \<Longrightarrow> py_slice s a b = drop (nat a) (take (nat b) s)"
  by (auto simp: py_slice_def slice_bound_def Let_def)

lemma length_py_lower [simp]: "length (py_lower s) = length s"
  by (simp add: py_lower_def)

lemma snippet_found:
  assumes "py_find (py_lower content) query = int i"
  shows "snippet content query
         = (if 50 < i then ''...'' else [])
           @ drop (i - 50) (take (min (length content) (i + length query + 50)) content)
           @ (if i + length query + 50 < length content then ''...'' else [])"
proof -
  have n1: "nat (int i - 50) = i - 50" by arith
  have n2: "nat (int i + int (length query) + 50) = i + length query + 50" by arith
  show ?thesis
    unfolding snippet_def Let_def assms
    by (simp add: py_slice_nonneg n1 n2)
qed

lemma snippet_not_found:
  assumes "py_find (py_lower content) query = - 1"
  shows "snippet content query
         = take (min (length content) (length query + 49)) content
           @ (if length query + 49 < length content then ''...'' else [])"
proof -
  have n2: "nat (49 + int (length query)) = length query + 49" by arith
  show ?thesis
    unfolding snippet_def Let_def assms
    by (simp add: py_slice_nonneg n2)
qed

lemma block_match_in_search:
  assumes "2 \<le> length q" and "cs \<in> set cheatsheets" and "sec \<in> set (c_sections cs)"
    and "b \<in> set (s_blocks sec)"
    and "py_in (py_lower q) (py_lower (b_content b)) \<or> title_hit (py_lower q) (b_title b)"
  shows "BlockMatch (c_id cs) (c_name cs) (s_title sec) (b_type b) (b_title b)
           (snippet (b_content b) (py_lower q)) \<in> set (search_cheatsheets cheatsheets q)"
proof -
  let ?m = "BlockMatch (c_id cs) (c_name cs) (s_title sec) (b_type b) (b_title b)
           (snippet (b_content b) (py_lower q))"
  have "?m \<in> set (spec_block_matches cs sec (py_lower q) b)"
    using assms(5) by (simp add: spec_block_matches_def)
  with assms(4) have "?m \<in> set (spec_section_matches cs (py_lower q) sec)"
    by (auto simp: spec_section_matches_def)
  with assms(3) have "?m \<in> set (spec_cheatsheet_matches (py_lower q) cs)"
    by (auto simp: spec_cheatsheet_matches_def)
  with assms(1,2) show ?thesis
    by (auto simp: search_cheatsheets_eq)
qed

text \<open>
  Claim C8. A query of length 0 or 1 gives the empty result list, whatever the documents
  hold: the guard at the head of \<open>search_cheatsheets\<close> returns before anything is read.
\<close>

theorem search_short_query_empty:
  "length q < 2 \<Longrightarrow> search_cheatsheets cheatsheets q = []"
  by (simp add: search_cheatsheets_def)

theorem search_short_query_empty_witness:
  "length ''g'' < 2
   \<and> py_in (py_lower ''g'') (py_lower ''Go Basics'')
   \<and> search_cheatsheets [\<lparr>c_id = ''cs_1'', c_name = ''Go Basics'', c_sections = []\<rparr>] ''g'' = []"
  using search_short_query_empty [of "''g''" "[\<lparr>c_id = ''cs_1'', c_name = ''Go Basics'', c_sections = []\<rparr>]"]
  by (simp add: py_lower_def lower_char_def is_upper_def startswith_def)

text \<open>
  Claim C5. For a query of at least two characters the result list is, document by
  document, the match of the name (if the lowered query occurs in the lowered name), then
  for each section in order the match of its title followed by the matches of its blocks
  in order; the match text of the first two kinds is the full name or title. A document
  named \<open>Go Basics\<close> without sections, searched for \<open>go\<close>, gives exactly one match, of
  kind cheatsheet, with text \<open>Go Basics\<close>.
\<close>

theorem search_match_order:
  "(2 \<le> length q \<longrightarrow>
      search_cheatsheets cheatsheets q
        = concat (map (spec_cheatsheet_matches (py_lower q)) cheatsheets))
   \<and> search_cheatsheets [\<lparr>c_id = i, c_name = ''Go Basics'', c_sections = []\<rparr>] ''go''
        = [CheatsheetMatch i ''Go Basics'' ''Go Basics'']"
  by (simp add: search_cheatsheets_eq spec_cheatsheet_matches_def
        py_lower_def lower_char_def is_upper_def startswith_def)

theorem search_match_order_witness:
  "2 \<le> length ''Go''
   \<and> search_cheatsheets [example_doc] ''Go''
       = [CheatsheetMatch ''cs_1'' ''Go Basics'' ''Go Basics'',
          SectionMatch ''cs_1'' ''Go Basics'' ''Going further'' ''Going further'',
          BlockMatch ''cs_1'' ''Go Basics'' ''Going further'' TCode (Some ''Go modules'')
            ''0123456789 0123456789 0123456789 0123456789 0123456...'']"
proof -
  have p1: "2 \<le> length ''Go''" by simp
  have "concat (map (spec_cheatsheet_matches (py_lower ''Go'')) [example_doc])
       = [CheatsheetMatch ''cs_1'' ''Go Basics'' ''Go Basics'',
          SectionMatch ''cs_1'' ''Go Basics'' ''Going further'' ''Going further'',
          BlockMatch ''cs_1'' ''Go Basics'' ''Going further'' TCode (Some ''Go modules'')
            ''0123456789 0123456789 0123456789 0123456789 0123456...'']"
    by (simp add: spec_cheatsheet_matches_def spec_section_matches_def spec_block_matches_def
          title_hit_def snippet_def py_find_def py_slice_def slice_bound_def ex_defs str_defs)
  with search_match_order [of "''Go''" "[example_doc]"] p1 show ?thesis by simp
qed

text \<open>
  Claim C3. When the lowered query occurs in the lowered content of a block, the result
  holds a match of kind block for it whose text is the context snippet: with \<open>i\<close> the first
  index where the query occurs, the content from \<open>i - 50\<close> (or from 0) up to
  \<open>i + len(query) + 50\<close> (or to the end), after three dots exactly when \<open>i - 50 > 0\<close> and
  before three dots exactly when \<open>i + len(query) + 50 < len(content)\<close>.
\<close>

theorem block_match_snippet:
  assumes "2 \<le> length q" and "cs \<in> set cheatsheets" and "sec \<in> set (c_sections cs)"
    and "b \<in> set (s_blocks sec)"
    and "py_in (py_lower q) (py_lower (b_content b))"
  shows "\<exists>i. py_find (py_lower (b_content b)) (py_lower q) = int i
           \<and> startswith (drop i (py_lower (b_content b))) (py_lower q)
           \<and> (\<forall>j<i. \<not> startswith (drop j (py_lower (b_content b))) (py_lower q))
           \<and> BlockMatch (c_id cs) (c_name cs) (s_title sec) (b_type b) (b_title b)
                ((if 50 < i then ''...'' else [])
                 @ drop (i - 50)
                     (take (min (length (b_content b)) (i + length (py_lower q) + 50)) (b_content b))
                 @ (if i + length (py_lower q) + 50 < length (b_content b) then ''...'' else []))
              \<in> set (search_cheatsheets cheatsheets q)"
proof -
  from find_from_in [OF assms(5), of 0] obtain i where
    i: "py_find (py_lower (b_content b)) (py_lower q) = int i"
       "startswith (drop i (py_lower (b_content b))) (py_lower q)"
       "\<forall>j<i. \<not> startswith (drop j (py_lower (b_content b))) (py_lower q)"
    by (auto simp: py_find_def)
  have "BlockMatch (c_id cs) (c_name cs) (s_title sec) (b_type b) (b_title b)
           (snippet (b_content b) (py_lower q)) \<in> set (search_cheatsheets cheatsheets q)"
    using assms by (intro block_match_in_search) simp_all
  with i show ?thesis
    unfolding snippet_found [OF i(1)] by blast
qed

theorem block_match_snippet_witness:
  "2 \<le> length ''CACHE'' \<and> example_doc \<in> set [example_doc]
   \<and> example_section \<in> set (c_sections example_doc)
   \<and> example_block \<in> set (s_blocks example_section)
   \<and> py_in (py_lower ''CACHE'') (py_lower (b_content example_block))
   \<and> BlockMatch ''cs_1'' ''Go Basics'' ''Going further'' TText (Some ''Caching'')
        ''...9 0123456789 0123456789 0123456789 0123456789 the Cache is warm 0123456789 0123456789 0123456789 01234567...''
      \<in> set (search_cheatsheets [example_doc] ''CACHE'')"
proof -
  have p1: "2 \<le> length ''CACHE''" by simp
  have p2: "example_doc \<in> set [example_doc]" by simp
  have p3: "example_section \<in> set (c_sections example_doc)" by (simp add: example_doc_def)
  have p4: "example_block \<in> set (s_blocks example_section)" by (simp add: example_section_def)
  have p5: "py_in (py_lower ''CACHE'') (py_lower (b_content example_block))"
    by (simp add: example_block_def str_defs)
  from block_match_snippet [OF p1 p2 p3 p4 p5] obtain i where
    i: "py_find (py_lower (b_content example_block)) (py_lower ''CACHE'') = int i"
    and m: "BlockMatch (c_id example_doc) (c_name example_doc) (s_title example_section)
              (b_type example_block) (b_title example_block)
              ((if 50 < i then ''...'' else [])
                 @ drop (i - 50)
                     (take (min (length (b_content example_block)) (i + length (py_lower ''CACHE'') + 50))
                        (b_content example_block))
                 @ (if i + length (py_lower ''CACHE'') + 50 < length (b_content example_block)
                    then ''...'' else []))
            \<in> set (search_cheatsheets [example_doc] ''CACHE'')"
    by blast
  have "py_find (py_lower (b_content example_block)) (py_lower ''CACHE'') = 59"
    by (simp add: example_block_def str_defs py_find_def)
  with i have "i = 59" by simp
  with m have "BlockMatch ''cs_1'' ''Go Basics'' ''Going further'' TText (Some ''Caching'')
        ''...9 0123456789 0123456789 0123456789 0123456789 the Cache is warm 0123456789 0123456789 0123456789 01234567...''
      \<in> set (search_cheatsheets [example_doc] ''CACHE'')"
    by (simp add: ex_defs py_lower_def)
  with p1 p2 p3 p4 p5 show ?thesis by blast
qed

text \<open>
  Claim C10. When the lowered query occurs in the title of a block and not in its content,
  a match of kind block is still in the result; \<open>find\<close> gives \<open>-1\<close>, and the match text
  is the first \<open>min(len(content), len(query) + 49)\<close> characters of the content with no dots
  in front, and with three dots behind exactly when the content is longer than
  \<open>len(query) + 49\<close>. The example shows such a text that does not hold the query.
\<close>

theorem title_only_match_snippet:
  assumes "2 \<le> length q" and "cs \<in> set cheatsheets" and "sec \<in> set (c_sections cs)"
    and "b \<in> set (s_blocks sec)"
    and "\<not> py_in (py_lower q) (py_lower (b_content b))"
    and "b_title b = Some t" and "py_in (py_lower q) (py_lower t)"
  shows "py_find (py_lower (b_content b)) (py_lower q) = - 1
         \<and> BlockMatch (c_id cs) (c_name cs) (s_title sec) (b_type b) (b_title b)
              (take (min (length (b_content b)) (length (py_lower q) + 49)) (b_content b)
               @ (if length (py_lower q) + 49 < length (b_content b) then ''...'' else []))
            \<in> set (search_cheatsheets cheatsheets q)"
proof -
  have nf: "py_find (py_lower (b_content b)) (py_lower q) = - 1"
    using assms(5) by (simp add: py_find_def find_from_notin)
  have "t \<noteq> []" using assms(1,7) by (auto simp: py_lower_def)
  then have "title_hit (py_lower q) (b_title b)"
    using assms(6,7) by (simp add: title_hit_def)
  then have "BlockMatch (c_id cs) (c_name cs) (s_title sec) (b_type b) (b_title b)
           (snippet (b_content b) (py_lower q)) \<in> set (search_cheatsheets cheatsheets q)"
    using assms by (intro block_match_in_search) simp_all
  with nf show ?thesis
    unfolding snippet_not_found [OF nf] by simp
qed

theorem title_only_match_snippet_witness:
  "2 \<le> length ''Go'' \<and> example_doc \<in> set [example_doc]
   \<and> example_section \<in> set (c_sections example_doc)
   \<and> example_title_block \<in> set (s_blocks example_section)
   \<and> \<not> py_in (py_lower ''Go'') (py_lower (b_content example_title_block))
   \<and> b_title example_title_block = Some ''Go modules''
   \<and> py_in (py_lower ''Go'') (py_lower ''Go modules'')
   \<and> BlockMatch ''cs_1'' ''Go Basics'' ''Going further'' TCode (Some ''Go modules'')
        ''0123456789 0123456789 0123456789 0123456789 0123456...''
      \<in> set (search_cheatsheets [example_doc] ''Go'')
   \<and> \<not> py_in (py_lower ''Go'')
         (py_lower ''0123456789 0123456789 0123456789 0123456789 0123456...'')"
proof -
  have p1: "2 \<le> length ''Go''" by simp
  have p2: "example_doc \<in> set [example_doc]" by simp
  have p3: "example_section \<in> set (c_sections example_doc)" by (simp add: example_doc_def)
  have p4: "example_title_block \<in> set (s_blocks example_section)"
    by (simp add: example_section_def)
  have p5: "\<not> py_in (py_lower ''Go'') (py_lower (b_content example_title_block))"
    by (simp add: example_title_block_def str_defs)
  have p6: "b_title example_title_block = Some ''Go modules''"
    by (simp add: example_title_block_def)
  have p7: "py_in (py_lower ''Go'') (py_lower ''Go modules'')" by (simp add: str_defs)
  have p8: "\<not> py_in (py_lower ''Go'')
         (py_lower ''0123456789 0123456789 0123456789 0123456789 0123456...'')"
    by (simp add: str_defs)
  from title_only_match_snippet [OF p1 p2 p3 p4 p5 p6 p7]
  have "BlockMatch ''cs_1'' ''Go Basics'' ''Going further'' TCode (Some ''Go modules'')
        ''0123456789 0123456789 0123456789 0123456789 0123456...''
      \<in> set (search_cheatsheets [example_doc] ''Go'')"
    by (simp add: ex_defs py_lower_def)
  with p1 p2 p3 p4 p5 p6 p7 p8 show ?thesis by blast
qed

section \<open>Properties of the importer\<close>

lemmas import_defs = parse_markdown_to_cheatsheet_def initial_state_def finish_def on_text_def
  on_fence_def fence_language_def lang_match_def on_h3_def on_h2_def new_section_def
  flush_section_def flush_block_def

lemmas class_defs = startswith_def py_strip_def is_space_def is_word_def

lemma py_str_small:
  "py_str 0 = ''0''" "py_str 1 = ''1''" "py_str 2 = ''2''" "py_str 3 = ''3''"
  by (simp_all add: py_str_def nat_digits.simps digit_char_def)

lemma startswith_Nil [simp]: "startswith s []"
  by (simp add: startswith_def)

lemma startswith_Cons:
  "startswith s (c # p) = (case s of [] \<Rightarrow> False | d # t \<Rightarrow> d = c \<and> startswith t p)"
  by (auto simp: startswith_def split: list.splits)

lemma py_strip_empty_iff: "py_strip s = [] \<longleftrightarrow> (\<forall>c\<in>set s. is_space c)"
proof
  assume e: "py_strip s = []"
  show "\<forall>c\<in>set s. is_space c"
  proof (rule ccontr)
    assume "\<not> (\<forall>c\<in>set s. is_space c)"
    then have ne: "dropWhile is_space s \<noteq> []" by (simp add: dropWhile_eq_Nil_conv)
    then have "\<not> is_space (hd (dropWhile is_space s))" by (rule hd_dropWhile)
    moreover have "hd (dropWhile is_space s) \<in> set (rev (dropWhile is_space s))"
      using ne by simp
    ultimately have "dropWhile is_space (rev (dropWhile is_space s)) \<noteq> []"
      by (auto simp del: set_rev simp: dropWhile_eq_Nil_conv)
    with e show False by (simp add: py_strip_def)
  qed
next
  assume "\<forall>c\<in>set s. is_space c"
  then have e: "dropWhile is_space s = []" by (simp add: dropWhile_eq_Nil_conv)
  show "py_strip s = []" unfolding py_strip_def e by simp
qed

lemma blank_not_marker:
  assumes "py_strip p = []"
  shows "\<not> startswith p ''```''" and "\<not> startswith p ''### ''"
proof -
  have sp: "\<forall>c\<in>set p. is_space c" using assms by (simp add: py_strip_empty_iff)
  have "\<not> is_space (CHR 0x60)" and "\<not> is_space (CHR ''#'')" by (simp_all add: is_space_def)
  with sp show "\<not> startswith p ''```''" and "\<not> startswith p ''### ''"
    by (auto simp: startswith_Cons split: list.splits)
qed

lemma h3_not_h2: "startswith p ''### '' \<Longrightarrow> \<not> startswith p ''## ''"
  by (auto simp: startswith_Cons split: list.splits)

lemma fence_not_header:
  "startswith p ''```'' \<Longrightarrow> \<not> startswith p ''## '' \<and> \<not> startswith p ''### ''"
  by (auto simp: startswith_Cons split: list.splits)


text \<open>
  Claim C1. The specification's example: importing the five lines
  \<open>## API\<close>, \<open>### Auth\<close>, the fence with tag \<open>python\<close>, \<open>x = 1\<close> and the closing fence
  under the name \<open>Notes\<close>. As the claim has it the section \<open>API\<close> would hold the code block
  alone. The fence branch appends the block in progress before it makes the code block, so
  the section holds two blocks: the text block titled \<open>Auth\<close> with empty content in slot 0
  and the code block with content \<open>x = 1\<close> and language \<open>python\<close> in slot 1.
\<close>

theorem import_example_two_blocks:
  "c_sections (parse_markdown_to_cheatsheet clock example_markdown ''Notes'')
     = [\<lparr>s_id = ''sec_'' @ py_str (clock 1) @ ''_0'', s_title = ''API'', s_titleColor = None,
         s_titleSize = None,
         s_blocks =
           [\<lparr>b_id = ''block_cs_'' @ py_str (clock 0) @ ''_1'', b_type = TText,
             b_title = Some ''Auth'', b_content = [], b_x = 0, b_y = 0, b_w = 6, b_h = 2,
             b_language = None, b_referenceData = None\<rparr>,
            \<lparr>b_id = ''block_cs_'' @ py_str (clock 0) @ ''_2'', b_type = TCode,
             b_title = None, b_content = ''x = 1'', b_x = 0, b_y = 1, b_w = 6, b_h = 3,
             b_language = Some ''python'', b_referenceData = None\<rparr>]\<rparr>]"
  by (simp add: example_markdown_def import_defs class_defs py_str_small)

theorem import_example_counterexample:
  "length (s_blocks (hd (c_sections (parse_markdown_to_cheatsheet int example_markdown ''Notes'')))) \<noteq> 1
   \<and> b_type (hd (s_blocks (hd (c_sections
         (parse_markdown_to_cheatsheet int example_markdown ''Notes''))))) = TText
   \<and> b_title (hd (s_blocks (hd (c_sections
         (parse_markdown_to_cheatsheet int example_markdown ''Notes''))))) = Some ''Auth''"
  by (simp add: example_markdown_def import_defs class_defs py_str_small)


subsection \<open>An invariant rule for the loop\<close>

lemma parse_lines_invariant:
  assumes "P st" and "set ls \<subseteq> L"
    and "\<And>st line. P st \<Longrightarrow> line \<in> L \<Longrightarrow> startswith line ''## '' \<Longrightarrow> P (on_h2 clock st line)"
    and "\<And>st line. P st \<Longrightarrow> line \<in> L \<Longrightarrow> startswith line ''### '' \<Longrightarrow> P (on_h3 cid st line)"
    and "\<And>st line code_lines. P st \<Longrightarrow> line \<in> L \<Longrightarrow> startswith line ''```'' \<Longrightarrow>
               set code_lines \<subseteq> L \<Longrightarrow> \<forall>l\<in>set code_lines. \<not> startswith l ''```'' \<Longrightarrow>
               P (on_fence cid st line code_lines)"
    and "\<And>st line. P st \<Longrightarrow> line \<in> L \<Longrightarrow> \<not> startswith line ''## '' \<Longrightarrow>
               \<not> startswith line ''### '' \<Longrightarrow> \<not> startswith line ''```'' \<Longrightarrow>
               py_strip line \<noteq> [] \<Longrightarrow> P (on_text clock cid st line)"
  shows "P (parse_lines clock cid st ls)"
  using assms
proof (induction clock cid st ls rule: parse_lines.induct)
  case (1 clock cid st)
  then show ?case by simp
next
  case (2 clock cid st line rest)
  note h2 = "2.prems"(3) and h3 = "2.prems"(4) and fe = "2.prems"(5) and tx = "2.prems"(6)
  let ?code = "takeWhile (\<lambda>l. \<not> startswith l ''```'') rest"
  let ?after = "drop 1 (dropWhile (\<lambda>l. \<not> startswith l ''```'') rest)"
  have sub: "set rest \<subseteq> L" and mem: "line \<in> L" using "2.prems"(2) by auto
  have "set ?after \<subseteq> set (dropWhile (\<lambda>l. \<not> startswith l ''```'') rest)"
    by (rule set_drop_subset)
  also have "\<dots> \<subseteq> set rest" by (auto dest: set_dropWhileD)
  finally have sub': "set ?after \<subseteq> L" using sub by blast
  have tw: "l \<in> set rest \<and> \<not> startswith l ''```''" if "l \<in> set ?code" for l
    using set_takeWhileD [OF that] by simp
  have code1: "set ?code \<subseteq> L" using tw sub by blast
  have code2: "\<forall>l\<in>set ?code. \<not> startswith l ''```''" using tw by blast
  show ?case
  proof (cases "startswith line ''## ''")
    case True
    have step: "parse_lines clock cid st (line # rest)
                  = parse_lines clock cid (on_h2 clock st line) rest"
      using True by simp
    have "P (on_h2 clock st line)" by (rule h2 [OF "2.prems"(1) mem True])
    then show ?thesis
      unfolding step by (rule "2.IH"(1) [OF True _ sub h2 h3 fe tx])
  next
    case n2: False
    show ?thesis
    proof (cases "startswith line ''### ''")
      case True
      have step: "parse_lines clock cid st (line # rest)
                    = parse_lines clock cid (on_h3 cid st line) rest"
        using n2 True by simp
      have "P (on_h3 cid st line)" by (rule h3 [OF "2.prems"(1) mem True])
      then show ?thesis
        unfolding step by (rule "2.IH"(2) [OF n2 True _ sub h2 h3 fe tx])
    next
      case n3: False
      show ?thesis
      proof (cases "startswith line ''```''")
        case True
        have step: "parse_lines clock cid st (line # rest)
                      = parse_lines clock cid (on_fence cid st line ?code) ?after"
          using n2 n3 True by simp
        have "P (on_fence cid st line ?code)"
          by (rule fe [OF "2.prems"(1) mem True code1 code2])
        then show ?thesis
          unfolding step by (rule "2.IH"(3) [OF n2 n3 True _ sub' h2 h3 fe tx])
      next
        case nf: False
        show ?thesis
        proof (cases "py_strip line \<noteq> []")
          case True
          have step: "parse_lines clock cid st (line # rest)
                        = parse_lines clock cid (on_text clock cid st line) rest"
            using n2 n3 nf True by simp
          have "P (on_text clock cid st line)"
            by (rule tx [OF "2.prems"(1) mem n2 n3 nf True])
          then show ?thesis
            unfolding step by (rule "2.IH"(4) [OF n2 n3 nf True _ sub h2 h3 fe tx])
        next
          case False
          have step: "parse_lines clock cid st (line # rest) = parse_lines clock cid st rest"
            using n2 n3 nf False by simp
          show ?thesis
            unfolding step by (rule "2.IH"(5) [OF n2 n3 nf False "2.prems"(1) sub h2 h3 fe tx])
        qed
      qed
    qed
  qed
qed

subsection \<open>What each branch does to the blocks appended so far\<close>

lemma on_h2_view:
  "emitted (on_h2 clock st line) = emitted st @ flushed st"
  "current_block (on_h2 clock st line)
     = (if current_section st = None then current_block st else None)"
  "block_counter (on_h2 clock st line) = block_counter st"
  by (auto simp: emitted_def flushed_def on_h2_def flush_block_def flush_section_def
        new_section_def Let_def split: option.splits)

lemma on_h3_view:
  "emitted (on_h3 cid st line) = emitted st @ flushed st"
  "current_block (on_h3 cid st line)
     = Some (text_block cid (block_counter st + 1) (Some (py_strip (drop 4 line))) [])"
  "block_counter (on_h3 cid st line) = block_counter st + 1"
  by (auto simp: emitted_def flushed_def on_h3_def flush_block_def text_block_def
        Let_def split: option.splits)

lemma on_fence_view:
  "emitted (on_fence cid st line code_lines)
     = emitted st @ flushed st
       @ (if current_section st = None then []
          else [code_block cid (block_counter st + 1) (py_join_nl code_lines) (fence_language line)])"
  "current_block (on_fence cid st line code_lines) = None"
  "block_counter (on_fence cid st line code_lines) = block_counter st + 1"
  by (auto simp: emitted_def flushed_def on_fence_def flush_block_def code_block_def
        Let_def split: option.splits)

lemma on_text_view:
  "emitted (on_text clock cid st line) = emitted st"
  "current_block (on_text clock cid st line)
     = (case current_block st of
          None \<Rightarrow> Some (text_block cid (block_counter st + 1) None line)
        | Some blk \<Rightarrow> Some (blk\<lparr>b_content := b_content blk @ NL # line\<rparr>))"
  "block_counter (on_text clock cid st line)
     = (if current_block st = None then block_counter st + 1 else block_counter st)"
  by (auto simp: emitted_def on_text_def text_block_def new_section_def
        Let_def split: option.splits)

lemma finish_view:
  "all_blocks (finish clock cid name st) = emitted st @ flushed st"
  by (auto simp: all_blocks_def emitted_def flushed_def finish_def flush_block_def
        flush_section_def new_section_def Let_def split: option.splits)

subsection \<open>The counter invariant\<close>

lemma block_ok_text: "block_ok L cid (text_block cid (n + 1) title content)"
  by (simp add: block_ok_def text_block_def)

lemma block_ok_code:
  "line \<in> L \<Longrightarrow> startswith line ''```'' \<Longrightarrow>
   block_ok L cid (code_block cid (n + 1) content (fence_language line))"
  by (auto simp: block_ok_def code_block_def)

lemma cinv_flush:
  assumes "cinv L lo cid es cb n"
    and "fl = (case cb of None \<Rightarrow> [] | Some b \<Rightarrow> [b]) \<or> fl = []"
  shows "cinv L lo cid (es @ fl) None n"
  using assms by (auto simp: cinv_def sorted_wrt_append split: option.splits)

lemma cinv_flushed:
  assumes "counter_inv L lo cid st"
  shows "cinv L lo cid (emitted st @ flushed st) None (block_counter st)"
  using assms unfolding counter_inv_def
  by (rule cinv_flush) (auto simp: flushed_def split: option.splits)

lemma cinv_new_current:
  "cinv L lo cid es None n \<Longrightarrow> block_ok L cid b \<Longrightarrow> b_y b = n \<Longrightarrow> cinv L lo cid es (Some b) (n + 1)"
  by (auto simp: cinv_def)

lemma cinv_emit:
  "cinv L lo cid es None n \<Longrightarrow> block_ok L cid b \<Longrightarrow> b_y b = n \<Longrightarrow> cinv L lo cid (es @ [b]) None (n + 1)"
  by (auto simp: cinv_def sorted_wrt_append)

lemma cinv_skip: "cinv L lo cid es None n \<Longrightarrow> cinv L lo cid es None (n + 1)"
  by (auto simp: cinv_def)

lemma cinv_content:
  "cinv L lo cid es (Some b) n \<Longrightarrow> cinv L lo cid es (Some (b\<lparr>b_content := c\<rparr>)) n"
  by (auto simp: cinv_def block_ok_def)

lemma counter_inv_on_h2:
  assumes "counter_inv L lo cid st"
  shows "counter_inv L lo cid (on_h2 clock st line)"
proof (cases "current_section st")
  case None
  then show ?thesis using assms by (simp add: counter_inv_def on_h2_view flushed_def)
next
  case (Some sec)
  then show ?thesis using cinv_flushed [OF assms] by (simp add: counter_inv_def on_h2_view)
qed

lemma counter_inv_on_h3:
  assumes "counter_inv L lo cid st"
  shows "counter_inv L lo cid (on_h3 cid st line)"
  unfolding counter_inv_def on_h3_view
  by (rule cinv_new_current [OF cinv_flushed [OF assms] block_ok_text])
     (simp add: text_block_def)

lemma counter_inv_on_fence:
  assumes "counter_inv L lo cid st" and "line \<in> L" and "startswith line ''```''"
  shows "counter_inv L lo cid (on_fence cid st line code_lines)"
proof (cases "current_section st")
  case None
  then show ?thesis
    using cinv_skip [OF cinv_flushed [OF assms(1)]] by (simp add: counter_inv_def on_fence_view)
next
  case (Some sec)
  have "cinv L lo cid
          ((emitted st @ flushed st)
           @ [code_block cid (block_counter st + 1) (py_join_nl code_lines) (fence_language line)])
          None (block_counter st + 1)"
    by (rule cinv_emit [OF cinv_flushed [OF assms(1)] block_ok_code [OF assms(2,3)]])
       (simp add: code_block_def)
  with Some show ?thesis by (simp add: counter_inv_def on_fence_view)
qed

lemma counter_inv_on_text:
  assumes "counter_inv L lo cid st"
  shows "counter_inv L lo cid (on_text clock cid st line)"
proof (cases "current_block st")
  case None
  have "cinv L lo cid (emitted st) (Some (text_block cid (block_counter st + 1) None line))
          (block_counter st + 1)"
    using assms None
    by (intro cinv_new_current block_ok_text) (simp_all add: counter_inv_def text_block_def)
  with None show ?thesis by (simp add: counter_inv_def on_text_view)
next
  case (Some blk)
  then show ?thesis using assms by (simp add: counter_inv_def on_text_view cinv_content)
qed

lemma counter_inv_parse_lines:
  assumes "counter_inv L lo cid st" and "set ls \<subseteq> L"
  shows "counter_inv L lo cid (parse_lines clock cid st ls)"
proof (rule parse_lines_invariant [where P = "counter_inv L lo cid" and L = L, OF assms])
  fix st' line
  assume a: "counter_inv L lo cid st'"
  from a show "counter_inv L lo cid (on_h2 clock st' line)" by (rule counter_inv_on_h2)
  from a show "counter_inv L lo cid (on_h3 cid st' line)" by (rule counter_inv_on_h3)
  from a show "counter_inv L lo cid (on_text clock cid st' line)" by (rule counter_inv_on_text)
  fix code_lines
  assume "line \<in> L" and "startswith line ''```''"
  with a show "counter_inv L lo cid (on_fence cid st' line code_lines)"
    by (rule counter_inv_on_fence)
qed

lemma counter_inv_finish:
  assumes "counter_inv L lo cid st"
  shows "(\<forall>b\<in>set (all_blocks (finish clock cid name st)).
            block_ok L cid b \<and> lo \<le> b_y b \<and> b_y b < block_counter st)
         \<and> sorted_wrt (<) (map b_y (all_blocks (finish clock cid name st)))"
  using cinv_flushed [OF assms] by (simp add: finish_view cinv_def)

lemma counter_inv_start:
  "counter_inv L n cid (initial_state\<lparr>block_counter := n\<rparr>)"
  by (simp add: counter_inv_def cinv_def emitted_def initial_state_def)








subsection \<open>A fence before any section\<close>

lemma on_h3_no_section:
  "current_section st = None \<Longrightarrow>
   on_h3 cid st line
     = st\<lparr>block_counter := block_counter st + 1,
          current_block := Some (text_block cid (block_counter st + 1)
                                   (Some (py_strip (drop 4 line))) [])\<rparr>"
  by (simp add: on_h3_def flush_block_def text_block_def Let_def)

lemma on_fence_no_section:
  "current_section st = None \<Longrightarrow>
   on_fence cid st line code_lines = st\<lparr>block_counter := block_counter st + 1, current_block := None\<rparr>"
  by (simp add: on_fence_def flush_block_def Let_def)

lemma fence_split:
  assumes "dropWhile (\<lambda>l. \<not> startswith l ''```'') xs = c # after"
  shows "takeWhile (\<lambda>l. \<not> startswith l ''```'') (xs @ ys)
           = takeWhile (\<lambda>l. \<not> startswith l ''```'') xs"
    and "dropWhile (\<lambda>l. \<not> startswith l ''```'') (xs @ ys) = c # after @ ys"
proof -
  let ?P = "\<lambda>l. \<not> startswith l ''```''"
  have "c \<in> set (dropWhile ?P xs)" using assms by simp
  then have m: "c \<in> set xs" by (rule set_dropWhileD)
  have "dropWhile ?P xs \<noteq> []" using assms by simp
  then have "\<not> ?P (hd (dropWhile ?P xs))" by (rule hd_dropWhile)
  then have n: "\<not> ?P c" using assms by simp
  show "takeWhile ?P (xs @ ys) = takeWhile ?P xs"
    by (rule takeWhile_append1 [where P = ?P, OF m n])
  have "dropWhile ?P (xs @ ys) = dropWhile ?P xs @ ys"
    by (rule dropWhile_append1 [where P = ?P, OF m n])
  then show "dropWhile ?P (xs @ ys) = c # after @ ys" using assms by simp
qed

lemma parse_lines_before_section:
  assumes "blocks_before_section pre = Some k" and "current_section st = None"
  shows "\<exists>cb. parse_lines clock cid st (pre @ rest)
          = parse_lines clock cid
              (st\<lparr>block_counter := block_counter st + int k, current_block := cb\<rparr>) rest"
  using assms
proof (induction pre arbitrary: st k rule: blocks_before_section.induct)
  case 1
  then have "k = 0" by simp
  moreover have "st\<lparr>block_counter := block_counter st + int 0,
                     current_block := current_block st\<rparr> = st"
    by simp
  ultimately have "parse_lines clock cid st ([] @ rest)
          = parse_lines clock cid
              (st\<lparr>block_counter := block_counter st + int k,
                   current_block := current_block st\<rparr>) rest"
    by simp
  then show ?case by (rule exI)
next
  case (2 line after_line)
  show ?case
  proof (cases "startswith line ''## ''")
    case True
    with "2.prems"(1) show ?thesis by simp
  next
    case n2: False
    show ?thesis
    proof (cases "startswith line ''### ''")
      case True
      from "2.prems"(1) n2 True obtain k' where k: "k = Suc k'"
        and b: "blocks_before_section after_line = Some k'"
        by auto
      let ?st = "on_h3 cid st line"
      have cs: "current_section ?st = None"
        using "2.prems"(2) by (simp add: on_h3_no_section)
      from "2.IH"(1) [OF n2 True b cs] obtain cb where
        "parse_lines clock cid ?st (after_line @ rest)
           = parse_lines clock cid
               (?st\<lparr>block_counter := block_counter ?st + int k', current_block := cb\<rparr>) rest"
        by blast
      moreover have "?st\<lparr>block_counter := block_counter ?st + int k', current_block := cb\<rparr>
                     = st\<lparr>block_counter := block_counter st + int k, current_block := cb\<rparr>"
        using "2.prems"(2) k by (simp add: on_h3_no_section)
      moreover have "parse_lines clock cid st ((line # after_line) @ rest)
                     = parse_lines clock cid ?st (after_line @ rest)"
        using n2 True by simp
      ultimately show ?thesis by auto
    next
      case n3: False
      show ?thesis
      proof (cases "startswith line ''```''")
        case True
        from "2.prems"(1) n2 n3 True obtain closing after k' where
          d: "dropWhile (\<lambda>l. \<not> startswith l ''```'') after_line = closing # after"
          and k: "k = Suc k'" and b: "blocks_before_section after = Some k'"
          by (auto split: list.splits)
        let ?code = "takeWhile (\<lambda>l. \<not> startswith l ''```'') after_line"
        let ?st = "on_fence cid st line ?code"
        have cs: "current_section ?st = None"
          using "2.prems"(2) by (simp add: on_fence_no_section)
        from "2.IH"(2) [OF n2 n3 True d b cs] obtain cb where
          "parse_lines clock cid ?st (after @ rest)
             = parse_lines clock cid
                 (?st\<lparr>block_counter := block_counter ?st + int k', current_block := cb\<rparr>) rest"
          by blast
        moreover have "?st\<lparr>block_counter := block_counter ?st + int k', current_block := cb\<rparr>
                       = st\<lparr>block_counter := block_counter st + int k, current_block := cb\<rparr>"
          using "2.prems"(2) k by (simp add: on_fence_no_section)
        moreover have "parse_lines clock cid st ((line # after_line) @ rest)
                       = parse_lines clock cid ?st (after @ rest)"
          using n2 n3 True fence_split [OF d, of rest] by simp
        ultimately show ?thesis by auto
      next
        case nf: False
        show ?thesis
        proof (cases "py_strip line \<noteq> []")
          case True
          with "2.prems"(1) n2 n3 nf show ?thesis by simp
        next
          case False
          from "2.prems"(1) n2 n3 nf False have b: "blocks_before_section after_line = Some k"
            by simp
          from "2.IH"(3) [OF n2 n3 nf False b "2.prems"(2)] obtain cb where
            "parse_lines clock cid st (after_line @ rest)
               = parse_lines clock cid
                   (st\<lparr>block_counter := block_counter st + int k, current_block := cb\<rparr>) rest"
            by blast
          moreover have "parse_lines clock cid st ((line # after_line) @ rest)
                         = parse_lines clock cid st (after_line @ rest)"
            using n2 n3 nf False by simp
          ultimately show ?thesis by auto
        qed
      qed
    qed
  qed
qed


text \<open>
  Claim C9. Take a fence line such that the lines before it are only blank lines, \<open>### \<close>
  headers and fenced blocks that are closed (\<open>blocks_before_section\<close> gives their number of
  headers and fenced blocks, \<open>k\<close>): none of them is a \<open>## \<close> header or a non-blank line of
  plain text, so no section exists at the fence. Then the imported document is what the loop
  makes of the lines after the closing fence, started from the initial state, so without the
  code block and with no block in progress, and with the counter at \<open>k + 1\<close>: the counter was
  incremented for the code block. The slot of the code block is \<open>k\<close>, and every block of the
  document has a slot above \<open>k\<close>: the code block is in no section, and no block takes its
  slot.
\<close>

theorem early_fence_discarded:
  assumes "py_split_nl md = pre @ l # rest"
    and "blocks_before_section pre = Some k"
    and "startswith l ''```''"
  shows "parse_markdown_to_cheatsheet clock md name
           = finish clock (''cs_'' @ py_str (clock 0)) name
               (parse_lines clock (''cs_'' @ py_str (clock 0))
                  (initial_state\<lparr>block_counter := int k + 1\<rparr>)
                  (drop 1 (dropWhile (\<lambda>l. \<not> startswith l ''```'') rest)))
         \<and> (\<forall>b\<in>set (all_blocks (parse_markdown_to_cheatsheet clock md name)). int k < b_y b)"
proof -
  let ?cid = "''cs_'' @ py_str (clock 0)"
  let ?rest = "drop 1 (dropWhile (\<lambda>l. \<not> startswith l ''```'') rest)"
  have n2: "\<not> startswith l ''## ''" and n3: "\<not> startswith l ''### ''"
    using fence_not_header [OF assms(3)] by simp_all
  have cs: "current_section initial_state = None" by (simp add: initial_state_def)
  from parse_lines_before_section [OF assms(2) cs, of clock ?cid "l # rest"]
  obtain cb where
    "parse_lines clock ?cid initial_state (pre @ l # rest)
       = parse_lines clock ?cid (initial_state\<lparr>block_counter := int k, current_block := cb\<rparr>)
           (l # rest)"
    by (auto simp: initial_state_def)
  also have "\<dots> = parse_lines clock ?cid (initial_state\<lparr>block_counter := int k + 1\<rparr>) ?rest"
    using n2 n3 assms(3) by (simp add: on_fence_no_section initial_state_def)
  finally have eq: "parse_markdown_to_cheatsheet clock md name
           = finish clock ?cid name
               (parse_lines clock ?cid (initial_state\<lparr>block_counter := int k + 1\<rparr>) ?rest)"
    by (simp add: parse_markdown_to_cheatsheet_def assms(1) Let_def)
  have "counter_inv (set ?rest) (int k + 1) ?cid (initial_state\<lparr>block_counter := int k + 1\<rparr>)"
    by (rule counter_inv_start)
  from counter_inv_finish [OF counter_inv_parse_lines [OF this subset_refl], of clock name clock]
  have "\<forall>b\<in>set (all_blocks (parse_markdown_to_cheatsheet clock md name)). int k + 1 \<le> b_y b"
    unfolding eq by blast
  then have "\<forall>b\<in>set (all_blocks (parse_markdown_to_cheatsheet clock md name)). int k < b_y b"
    by auto
  with eq show ?thesis by blast
qed

theorem early_fence_discarded_witness:
  "parse_markdown_to_cheatsheet int two_fences_markdown ''n''
     = finish int ''cs_0'' ''n''
         (parse_lines int ''cs_0'' (initial_state\<lparr>block_counter := 3\<rparr>) [''## S'', ''text''])
   \<and> map b_type (all_blocks (parse_markdown_to_cheatsheet int two_fences_markdown ''n'')) = [TText]
   \<and> map b_y (all_blocks (parse_markdown_to_cheatsheet int two_fences_markdown ''n'')) = [3]"
proof -
  have p1: "py_split_nl two_fences_markdown
              = [''```'', ''a'', ''```'', ''### T''] @ ''```sh'' # [''ls'', ''```'', ''## S'', ''text'']"
    by (simp add: two_fences_markdown_def)
  have p2: "blocks_before_section [''```'', ''a'', ''```'', ''### T''] = Some 2"
    by (simp add: class_defs)
  have p3: "startswith ''```sh'' ''```''" by (simp add: startswith_def)
  have v: "map b_type (all_blocks (parse_markdown_to_cheatsheet int two_fences_markdown ''n'')) = [TText]
     \<and> map b_y (all_blocks (parse_markdown_to_cheatsheet int two_fences_markdown ''n'')) = [3]"
    by (simp add: two_fences_markdown_def all_blocks_def import_defs class_defs py_str_small)
  from early_fence_discarded [OF p1 p2 p3, of int "''n''"]
  have "parse_markdown_to_cheatsheet int two_fences_markdown ''n''
     = finish int ''cs_0'' ''n''
         (parse_lines int ''cs_0'' (initial_state\<lparr>block_counter := 3\<rparr>) [''## S'', ''text''])"
    by (simp add: class_defs py_str_small)
  with v show ?thesis by simp
qed

section \<open>Properties of export followed by import\<close>

lemmas export_defs = export_markdown_def export_section_def export_block_def

lemmas view_defs = doc_structure_def section_view_def block_view_def

subsection \<open>Splitting and joining lines\<close>

lemma py_split_nl_nonempty [simp]: "py_split_nl s \<noteq> []"
  by (induction s) (auto split: list.splits)

lemma py_split_nl_no_NL: "NL \<notin> set s \<Longrightarrow> py_split_nl s = [s]"
  by (induction s) auto

lemma py_split_nl_append: "py_split_nl (a @ NL # b) = py_split_nl a @ py_split_nl b"
  by (induction a) (auto split: list.splits)

lemma py_split_nl_snoc: "py_split_nl (a @ [NL]) = py_split_nl a @ [[]]"
  using py_split_nl_append [of a "[]"] by simp

lemma py_split_nl_lines: "l \<in> set (py_split_nl s) \<Longrightarrow> NL \<notin> set l"
proof (induction s arbitrary: l)
  case Nil
  then show ?case by simp
next
  case (Cons c s)
  then show ?case
    by (cases "py_split_nl s") (auto split: if_splits)
qed

lemma py_split_nl_join:
  "xs \<noteq> [] \<Longrightarrow> py_split_nl (py_join_nl xs) = concat (map py_split_nl xs)"
proof (induction xs rule: py_join_nl.induct)
  case 1
  then show ?case by simp
next
  case (2 x)
  then show ?case by simp
next
  case (3 x y ys)
  then show ?case by (simp add: py_split_nl_append)
qed

lemma py_join_nl_split: "py_join_nl (py_split_nl s) = s"
proof (induction s)
  case Nil
  then show ?case by simp
next
  case (Cons c s)
  show ?case
  proof (cases "c = NL")
    case True
    obtain l ls where "py_split_nl s = l # ls" by (cases "py_split_nl s") auto
    with True Cons show ?thesis by auto
  next
    case False
    obtain l ls where e: "py_split_nl s = l # ls" by (cases "py_split_nl s") auto
    with Cons have "py_join_nl (l # ls) = s" by simp
    then have "py_join_nl ((c # l) # ls) = c # s" by (cases ls) auto
    with False e show ?thesis by simp
  qed
qed

lemma py_join_nl_Cons: "py_join_nl (l # ls) = l @ concat (map ((#) NL) ls)"
  by (induction ls arbitrary: l) auto

lemma py_join_nl_lines:
  "\<forall>l\<in>set ls. NL \<notin> set l \<Longrightarrow> ls \<noteq> [] \<Longrightarrow> py_split_nl (py_join_nl ls) = ls"
proof -
  assume a: "\<forall>l\<in>set ls. NL \<notin> set l" and "ls \<noteq> []"
  then have "py_split_nl (py_join_nl ls) = concat (map py_split_nl ls)"
    by (simp add: py_split_nl_join)
  also have "map py_split_nl ls = map (\<lambda>l. [l]) ls"
    using a by (simp add: py_split_nl_no_NL)
  finally show ?thesis by simp
qed

lemma dropWhile_id: "xs = [] \<or> \<not> P (hd xs) \<Longrightarrow> dropWhile P xs = xs"
  by (cases xs) auto

lemma py_strip_idem: "py_strip (py_strip s) = py_strip s"
proof -
  let ?u = "dropWhile is_space s"
  let ?v = "dropWhile is_space (rev ?u)"
  have t: "py_strip s = rev ?v" by (simp add: py_strip_def)
  show ?thesis
  proof (cases "?v = []")
    case True
    with t have e: "py_strip s = []" by simp
    show ?thesis unfolding e by (simp add: py_strip_def)
  next
    case False
    then have hv: "\<not> is_space (hd ?v)" by (rule hd_dropWhile)
    have "?u = [] \<Longrightarrow> ?v = []" by (simp only: rev.simps dropWhile.simps)
    with False have une: "?u \<noteq> []" by blast
    then have hu: "\<not> is_space (hd ?u)" by (rule hd_dropWhile)
    obtain w where w: "rev ?u = w @ ?v"
      by (metis takeWhile_dropWhile_id)
    have "last ?v = last (rev ?u)" using False w by (metis last_appendR)
    also have "\<dots> = hd ?u" using une by (simp add: last_rev)
    finally have "hd (rev ?v) = hd ?u" using False by (simp add: hd_rev)
    with hu have 1: "dropWhile is_space (rev ?v) = rev ?v" by (intro dropWhile_id) simp
    have 2: "dropWhile is_space ?v = ?v" using hv by (intro dropWhile_id) simp
    show ?thesis unfolding t by (simp add: py_strip_def 1 2 del: dropWhile_idem)
  qed
qed

lemma py_strip_set: "set (py_strip s) \<subseteq> set s"
proof -
  have "set (py_strip s) \<subseteq> set (dropWhile is_space s)"
    unfolding py_strip_def using set_dropWhileD by fastforce
  also have "\<dots> \<subseteq> set s" using set_dropWhileD by fast
  finally show ?thesis .
qed

lemma py_strip_no_NL: "NL \<notin> set s \<Longrightarrow> NL \<notin> set (py_strip (drop n s))"
  using py_strip_set [of "drop n s"] set_drop_subset [of n s] by blast


subsection \<open>The importer on structures\<close>

lemma state_view_on_h2: "state_view (on_h2 clock st line) = v_on_h2 (state_view st) line"
  by (cases "current_section st"; cases "current_block st")
     (simp_all add: state_view_def on_h2_def flush_block_def flush_section_def new_section_def
        section_view_def Let_def)

lemma state_view_on_h3: "state_view (on_h3 cid st line) = v_on_h3 (state_view st) line"
  by (cases "current_section st"; cases "current_block st")
     (simp_all add: state_view_def on_h3_def flush_block_def section_view_def block_view_def Let_def)

lemma state_view_on_fence:
  "state_view (on_fence cid st line code_lines) = v_on_fence (state_view st) line code_lines"
  by (cases "current_section st"; cases "current_block st")
     (simp_all add: state_view_def on_fence_def flush_block_def section_view_def block_view_def
        Let_def)

lemma state_view_on_text:
  "state_view (on_text clock cid st line) = v_on_text (state_view st) line"
  by (cases "current_section st"; cases "current_block st")
     (simp_all add: state_view_def on_text_def new_section_def section_view_def block_view_def
        Let_def)

lemma state_view_parse_lines:
  "state_view (parse_lines clock cid st ls) = v_parse_lines (state_view st) ls"
  by (induction clock cid st ls rule: parse_lines.induct)
     (simp_all add: state_view_on_h2 state_view_on_h3 state_view_on_fence state_view_on_text)

lemma doc_structure_finish:
  "doc_structure (finish clock cid name st) = v_finish (state_view st)"
  by (cases "current_section st"; cases "current_block st")
     (simp_all add: doc_structure_def finish_def state_view_def flush_block_def flush_section_def
        new_section_def section_view_def Let_def)

lemma doc_structure_import:
  "doc_structure (parse_markdown_to_cheatsheet clock md name) = v_import md"
  by (simp add: parse_markdown_to_cheatsheet_def v_import_def Let_def doc_structure_finish
        state_view_parse_lines)
     (simp add: state_view_def initial_state_def)


subsection \<open>The shape of an imported document\<close>

lemma adj_snoc: "adj (bs @ [b]) \<longleftrightarrow> adj bs \<and> (untitled_text b \<longrightarrow> fresh bs)"
proof (induction bs)
  case Nil
  then show ?case by (simp add: fresh_def)
next
  case (Cons a bs)
  show ?case
  proof (cases bs)
    case Nil
    then show ?thesis by (simp add: fresh_def)
  next
    case (Cons c cs)
    with Cons.IH show ?thesis by (simp add: fresh_def)
  qed
qed

lemma fresh_snoc: "fresh (bs @ [b]) = is_code b"
  by (simp add: fresh_def)

lemma wf_close:
  assumes "wf_sview s"
    and "case blk of None \<Rightarrow> True | Some b \<Rightarrow> wf_bview b \<and> (untitled_text b \<longrightarrow> fresh (snd s))"
  shows "wf_sview (v_close s blk)"
proof (cases s)
  case (Pair t bs)
  with assms show ?thesis by (cases blk) (simp_all add: adj_snoc)
qed

lemma strip_Imported: "py_strip ''Imported Content'' = ''Imported Content''"
  by (simp add: py_strip_def is_space_def)

lemma wf_pview_flush:
  assumes "wf_pview (secs, Some s, blk)"
  shows "wf_sview (v_close s blk)"
proof (rule wf_close)
  show "wf_sview s" using assms by simp
  show "case blk of None \<Rightarrow> True | Some b \<Rightarrow> wf_bview b \<and> (untitled_text b \<longrightarrow> fresh (snd s))"
    using assms by (cases blk) simp_all
qed

lemma wf_title:
  assumes "NL \<notin> set line"
  shows "py_strip (py_strip (drop n line)) = py_strip (drop n line)"
    and "NL \<notin> set (py_strip (drop n line))"
  using assms by (simp_all add: py_strip_idem py_strip_no_NL)

lemma wf_pview_on_h2:
  assumes "wf_pview v" and "NL \<notin> set line"
  shows "wf_pview (v_on_h2 v line)"
proof -
  obtain secs cur blk where v: "v = (secs, cur, blk)" by (cases v)
  note t = wf_title [OF assms(2), of 3]
  show ?thesis
  proof (cases cur)
    case None
    show ?thesis
    proof (cases blk)
      case N: None
      with assms(1) v None t show ?thesis by (simp add: fresh_def)
    next
      case (Some b)
      with assms(1) v None t show ?thesis by (simp add: fresh_def)
    qed
  next
    case (Some s)
    have "wf_sview (v_close s blk)" using assms(1) unfolding v Some by (rule wf_pview_flush)
    with assms(1) v Some t show ?thesis by (simp add: fresh_def)
  qed
qed

lemma wf_new_titled:
  assumes "NL \<notin> set line"
  shows "wf_bview (Some (py_strip (drop 4 line)), TText, [], None)"
  using wf_title [OF assms, of 4] by simp

lemma wf_pview_on_h3:
  assumes "wf_pview v" and "NL \<notin> set line"
  shows "wf_pview (v_on_h3 v line)"
proof -
  obtain secs cur blk where v: "v = (secs, cur, blk)" by (cases v)
  note b = wf_new_titled [OF assms(2)]
  show ?thesis
  proof (cases cur)
    case None
    with assms(1) v b show ?thesis by simp
  next
    case (Some s)
    have "wf_sview (v_close s blk)" using assms(1) unfolding v Some by (rule wf_pview_flush)
    with assms(1) v Some b show ?thesis by simp
  qed
qed

lemma fence_language_word:
  "fence_language line \<noteq> [] \<and> list_all is_word (fence_language line)"
proof -
  have "\<forall>c\<in>set (takeWhile is_word (drop 3 line)). is_word c"
    by (auto dest: set_takeWhileD)
  then have "list_all is_word (takeWhile is_word (drop 3 line))"
    by (simp add: list_all_iff)
  moreover have "list_all is_word ''text''" by (simp add: is_word_def)
  ultimately show ?thesis
    by (simp add: fence_language_def lang_match_def Let_def)
qed

lemma code_content_lines:
  assumes "\<forall>l\<in>set code_lines. \<not> startswith l ''```'' \<and> NL \<notin> set l"
  shows "list_all (\<lambda>l. \<not> startswith l ''```'') (py_split_nl (py_join_nl code_lines))"
proof (cases "code_lines = []")
  case True
  then show ?thesis by (simp add: startswith_def)
next
  case False
  with assms have "py_split_nl (py_join_nl code_lines) = code_lines"
    by (simp add: py_join_nl_lines)
  with assms show ?thesis by (simp add: list_all_iff)
qed

lemma wf_pview_on_fence:
  assumes "wf_pview v" and "\<forall>l\<in>set code_lines. \<not> startswith l ''```'' \<and> NL \<notin> set l"
  shows "wf_pview (v_on_fence v line code_lines)"
proof -
  obtain secs cur blk where v: "v = (secs, cur, blk)" by (cases v)
  let ?b = "(None, TCode, py_join_nl code_lines, Some (fence_language line))"
  have b: "wf_bview ?b"
    using code_content_lines [OF assms(2)] fence_language_word [of line] by simp
  show ?thesis
  proof (cases cur)
    case None
    with assms(1) v show ?thesis by simp
  next
    case (Some s)
    have c: "wf_sview (v_close s blk)" using assms(1) unfolding v Some by (rule wf_pview_flush)
    obtain t bs where s': "v_close s blk = (t, bs)" by (cases "v_close s blk")
    with c b have "wf_sview (v_append (v_close s blk) ?b)" by (simp add: adj_snoc)
    moreover have "fresh (snd (v_append (v_close s blk) ?b))" using s' by (simp add: fresh_snoc)
    ultimately show ?thesis using assms(1) v Some by simp
  qed
qed

lemma wf_pview_on_text:
  assumes "wf_pview v" and "plain line"
  shows "wf_pview (v_on_text v line)"
proof -
  obtain secs cur blk where v: "v = (secs, cur, blk)" by (cases v)
  have nl: "NL \<notin> set line" using assms(2) by (simp add: plain_def)
  have sp: "py_split_nl (c @ NL # line) = py_split_nl c @ [line]" for c
    using nl by (simp add: py_split_nl_append py_split_nl_no_NL)
  have cur': "wf_sview (''Imported Content'', [])" by (simp add: strip_Imported)
  show ?thesis
  proof (cases blk)
    case None
    have b: "wf_bview (None, TText, line, None)"
      using assms(2) nl by (simp add: py_split_nl_no_NL)
    show ?thesis
    proof (cases cur)
      case N: None
      with assms(1) v None b cur' show ?thesis by (simp add: fresh_def)
    next
      case (Some s)
      with assms(1) v None b show ?thesis by simp
    qed
  next
    case (Some b)
    obtain t ty c l where b: "b = (t, ty, c, l)" by (cases b)
    have ty: "ty = TText" using assms(1) v Some b by (cases ty) simp_all
    have w: "wf_bview (t, TText, c @ NL # line, l)"
    proof (cases t)
      case None
      with assms v Some b ty show ?thesis by (simp add: sp)
    next
      case S: (Some tt)
      have "py_split_nl c \<noteq> []" by simp
      then have "hd (py_split_nl c @ [line]) = hd (py_split_nl c)"
        and "tl (py_split_nl c @ [line]) = tl (py_split_nl c) @ [line]"
        by simp_all
      with assms v Some b ty S show ?thesis by (simp add: sp)
    qed
    show ?thesis
    proof (cases cur)
      case None
      with assms(1) v Some b ty w cur' show ?thesis by (simp add: fresh_def)
    next
      case S: (Some s)
      with assms(1) v Some b ty w show ?thesis by simp
    qed
  qed
qed

lemma wf_pview_parse_lines:
  assumes "wf_pview (state_view st)" and "\<forall>l\<in>set ls. NL \<notin> set l"
  shows "wf_pview (state_view (parse_lines clock cid st ls))"
proof (rule parse_lines_invariant [where P = "\<lambda>st. wf_pview (state_view st)"
         and L = "{l. NL \<notin> set l}"])
  show "wf_pview (state_view st)" by fact
  show "set ls \<subseteq> {l. NL \<notin> set l}" using assms(2) by auto
next
  fix st' line
  assume a: "wf_pview (state_view st')" and l: "line \<in> {l. NL \<notin> set l}"
  from a l show "wf_pview (state_view (on_h2 clock st' line))"
    by (simp add: state_view_on_h2 wf_pview_on_h2)
  from a l show "wf_pview (state_view (on_h3 cid st' line))"
    by (simp add: state_view_on_h3 wf_pview_on_h3)
  {
    assume "\<not> startswith line ''## ''" "\<not> startswith line ''### ''" "\<not> startswith line ''```''"
      "py_strip line \<noteq> []"
    with l have "plain line" by (simp add: plain_def)
    with a show "wf_pview (state_view (on_text clock cid st' line))"
      by (simp add: state_view_on_text wf_pview_on_text)
  }
  fix code_lines
  assume "set code_lines \<subseteq> {l. NL \<notin> set l}" "\<forall>l\<in>set code_lines. \<not> startswith l ''```''"
  then have "\<forall>l\<in>set code_lines. \<not> startswith l ''```'' \<and> NL \<notin> set l" by auto
  with a show "wf_pview (state_view (on_fence cid st' line code_lines))"
    by (simp add: state_view_on_fence wf_pview_on_fence)
qed

lemma wf_finish:
  assumes "wf_pview v"
  shows "list_all wf_sview (v_finish v)"
proof -
  obtain secs cur blk where v: "v = (secs, cur, blk)" by (cases v)
  show ?thesis
  proof (cases cur)
    case None
    with assms v show ?thesis by (simp add: Let_def strip_Imported)
  next
    case (Some s)
    have "wf_sview (v_close s blk)" using assms unfolding v Some by (rule wf_pview_flush)
    with assms v Some show ?thesis by (simp add: Let_def)
  qed
qed

lemma wf_import: "list_all wf_sview (v_import md)"
proof -
  have i: "state_view initial_state = ([], None, None)"
    by (simp add: state_view_def initial_state_def)
  have "wf_pview (state_view initial_state)" unfolding i by simp
  then have "wf_pview (state_view (parse_lines (\<lambda>k. 0) [] initial_state (py_split_nl md)))"
    by (rule wf_pview_parse_lines) (simp add: py_split_nl_lines)
  then have "list_all wf_sview (v_finish (v_parse_lines ([], None, None) (py_split_nl md)))"
    unfolding state_view_parse_lines i by (rule wf_finish)
  then show ?thesis by (simp add: v_import_def)
qed


subsection \<open>The lines of an exported document\<close>

lemma foldl_reference_row:
  "foldl reference_row (a @ b) rows = a @ foldl reference_row b rows"
  by (induction rows arbitrary: b) (simp_all add: reference_row_def)

lemma export_block_append: "export_block acc b = acc @ export_block [] b"
proof -
  have r: "foldl reference_row (x @ y) rows = x @ foldl reference_row y rows" for x y rows
    by (rule foldl_reference_row)
  show ?thesis
    unfolding export_block_def Let_def
    by (cases "b_type b"; cases "b_title b"; cases "b_referenceData b")
       (simp_all add: r [of acc, symmetric] r [of "acc @ _", simplified, symmetric]
          del: foldl_append)
qed

lemma foldl_export_block:
  "foldl export_block acc bs = acc @ concat (map (export_block []) bs)"
proof (induction bs arbitrary: acc)
  case Nil
  then show ?case by simp
next
  case (Cons b bs)
  show ?case
    using Cons [of "export_block acc b"] export_block_append [of acc b] by simp
qed

lemma export_section_append: "export_section acc s = acc @ export_section [] s"
  by (simp add: export_section_def foldl_export_block)

lemma foldl_export_section:
  "foldl export_section acc ss = acc @ concat (map (export_section []) ss)"
proof (induction ss arbitrary: acc)
  case Nil
  then show ?case by simp
next
  case (Cons s ss)
  show ?case
    using Cons [of "export_section acc s"] export_section_append [of acc s] by simp
qed

lemma split_wrapped: "py_split_nl (NL # x @ [NL]) = [[]] @ py_split_nl x @ [[]]"
  by (simp add: py_split_nl_snoc)

lemma is_word_no_NL: "list_all is_word g \<Longrightarrow> NL \<notin> set g"
  by (auto simp: list_all_iff is_word_def)

lemma concat_map_concat:
  "\<forall>x\<in>set xs. concat (map f (g x)) = h x \<Longrightarrow>
   concat (map f (concat (map g xs))) = concat (map h xs)"
  by (induction xs) simp_all

lemma export_block_lines:
  assumes "wf_bview (block_view b)"
  shows "concat (map py_split_nl (export_block [] b)) = v_block_lines (block_view b)"
proof (cases "b_type b")
  case TText
  show ?thesis
  proof (cases "b_title b")
    case None
    with TText show ?thesis
      by (simp add: export_block_def block_view_def py_split_nl_snoc)
  next
    case (Some t)
    with TText assms have "NL \<notin> set t" by (simp add: block_view_def)
    then have "py_split_nl (''### '' @ t) = [''### '' @ t]" by (simp add: py_split_nl_no_NL)
    then have "py_split_nl (NL # ''### '' @ t @ [NL]) = [[], ''### '' @ t, []]"
      using split_wrapped [of "''### '' @ t"] by simp
    with TText Some show ?thesis
      by (simp add: export_block_def block_view_def py_split_nl_snoc)
  qed
next
  case TCode
  with assms obtain g where g: "b_language b = Some g" "g \<noteq> []" "list_all is_word g"
    and t: "b_title b = None"
    by (cases "b_language b") (auto simp: block_view_def)
  have "NL \<notin> set g" using g(3) by (rule is_word_no_NL)
  then have 1: "py_split_nl (''```'' @ g) = [''```'' @ g]" by (simp add: py_split_nl_no_NL)
  have "NL # ''```'' @ g @ NL # b_content b @ NL # ''```'' @ [NL]
        = NL # ((''```'' @ g) @ NL # (b_content b @ NL # ''```'')) @ [NL]" by simp
  then have "py_split_nl (NL # ''```'' @ g @ NL # b_content b @ NL # ''```'' @ [NL])
        = [[]] @ py_split_nl ((''```'' @ g) @ NL # (b_content b @ NL # ''```'')) @ [[]]"
    by (simp only: split_wrapped)
  also have "py_split_nl ((''```'' @ g) @ NL # (b_content b @ NL # ''```''))
        = [''```'' @ g] @ py_split_nl (b_content b) @ [''```'']"
    unfolding py_split_nl_append 1 by (simp add: py_split_nl_no_NL)
  finally show ?thesis
    using TCode g t by (simp add: export_block_def block_view_def)
qed (use assms in \<open>simp_all add: block_view_def\<close>)

lemma export_section_lines:
  assumes "wf_sview (section_view s)"
  shows "concat (map py_split_nl (export_section [] s)) = v_section_lines (section_view s)"
proof -
  have t: "NL \<notin> set (s_title s)" using assms by (simp add: section_view_def)
  then have "py_split_nl (''## '' @ s_title s) = [''## '' @ s_title s]"
    by (simp add: py_split_nl_no_NL)
  then have h: "py_split_nl (NL # ''## '' @ s_title s @ [NL]) = [[], ''## '' @ s_title s, []]"
    using split_wrapped [of "''## '' @ s_title s"] by simp
  have "\<forall>b\<in>set (s_blocks s). wf_bview (block_view b)"
    using assms by (simp add: section_view_def list_all_iff)
  then have "\<forall>b\<in>set (s_blocks s).
               concat (map py_split_nl (export_block [] b)) = v_block_lines (block_view b)"
    by (simp add: export_block_lines)
  then have "concat (map py_split_nl (concat (map (export_block []) (s_blocks s))))
             = concat (map (\<lambda>b. v_block_lines (block_view b)) (s_blocks s))"
    by (rule concat_map_concat)
  then have "concat (map py_split_nl (concat (map (export_block []) (s_blocks s))))
             = concat (map v_block_lines (map block_view (s_blocks s)))"
    by (simp add: comp_def)
  with h show ?thesis
    by (simp add: export_section_def foldl_export_block section_view_def)
qed

lemma export_markdown_lines:
  assumes "list_all wf_sview (doc_structure doc)"
  shows "py_split_nl (export_markdown doc)
         = py_split_nl (''# '' @ c_name doc) @ [[]]
           @ concat (map v_section_lines (doc_structure doc))"
proof -
  have "\<forall>s\<in>set (c_sections doc). wf_sview (section_view s)"
    using assms by (simp add: doc_structure_def list_all_iff)
  then have "\<forall>s\<in>set (c_sections doc).
               concat (map py_split_nl (export_section [] s)) = v_section_lines (section_view s)"
    by (simp add: export_section_lines)
  then have "concat (map py_split_nl (concat (map (export_section []) (c_sections doc))))
             = concat (map (\<lambda>s. v_section_lines (section_view s)) (c_sections doc))"
    by (rule concat_map_concat)
  then have "concat (map py_split_nl (concat (map (export_section []) (c_sections doc))))
             = concat (map v_section_lines (doc_structure doc))"
    by (simp add: comp_def doc_structure_def)
  moreover have "py_split_nl (''# '' @ c_name doc @ [NL]) = py_split_nl (''# '' @ c_name doc) @ [[]]"
    using py_split_nl_snoc [of "''# '' @ c_name doc"] by simp
  ultimately show ?thesis
    by (simp add: export_markdown_def foldl_export_section py_split_nl_join)
qed


subsection \<open>Reading the exported lines again\<close>

lemma vp_blank: "v_parse_lines v ([] # rest) = v_parse_lines v rest"
  by (simp add: startswith_def py_strip_def)

lemma vp_plain: "plain l \<Longrightarrow> v_parse_lines v (l # rest) = v_parse_lines (v_on_text v l) rest"
  by (simp add: plain_def)

lemma vp_plains:
  "list_all plain ls \<Longrightarrow> v_parse_lines v (ls @ rest) = v_parse_lines (foldl v_on_text v ls) rest"
  by (induction ls arbitrary: v) (simp_all add: vp_plain del: v_parse_lines.simps)

lemma foldl_text_block:
  "foldl v_on_text (secs, Some s, Some (t, ty, c, l)) ls
     = (secs, Some s, Some (t, ty, c @ concat (map ((#) NL) ls), l))"
  by (induction ls arbitrary: c) simp_all

lemma vp_h3:
  assumes "py_strip t = t"
  shows "v_parse_lines (secs, Some s, blk) ((''### '' @ t) # rest)
         = v_parse_lines (secs, Some (v_close s blk), Some (Some t, TText, [], None)) rest"
  using assms by (simp add: startswith_def)

lemma vp_h2:
  assumes "py_strip t = t"
  shows "v_parse_lines (secs, Some s, blk) ((''## '' @ t) # rest)
         = v_parse_lines (secs @ [v_close s blk], Some (t, []), None) rest"
  using assms by (simp add: startswith_def)

lemma fence_language_tag:
  assumes "g \<noteq> []" and "list_all is_word g"
  shows "fence_language (CHR 0x60 # CHR 0x60 # CHR 0x60 # g) = g"
proof -
  have tw: "takeWhile is_word g = g" using assms(2) by (simp add: list_all_iff)
  show ?thesis
    using assms(1) by (simp add: fence_language_def lang_match_def startswith_def Let_def tw)
qed

lemma vp_fence:
  assumes "g \<noteq> []" and "list_all is_word g"
    and "list_all (\<lambda>l. \<not> startswith l ''```'') code"
  shows "v_parse_lines (secs, Some s, blk) ((''```'' @ g) # code @ ''```'' # rest)
         = v_parse_lines
             (secs, Some (v_append (v_close s blk) (None, TCode, py_join_nl code, Some g)), None)
             rest"
proof -
  have tw: "takeWhile (\<lambda>l. \<not> startswith l ''```'') (code @ ''```'' # rest) = code"
    using assms(3) by (simp add: list_all_iff startswith_def)
  have dw: "dropWhile (\<lambda>l. \<not> startswith l ''```'') (code @ ''```'' # rest) = ''```'' # rest"
    using assms(3) by (simp add: list_all_iff startswith_def)
  have s: "startswith (''```'' @ g) ''```''" "\<not> startswith (''```'' @ g) ''## ''"
    "\<not> startswith (''```'' @ g) ''### ''"
    by (simp_all add: startswith_def)
  show ?thesis
    using s by (simp add: tw dw fence_language_tag [OF assms(1,2)])
qed

lemma v_close_None [simp]: "v_close s None = s"
  by (cases s) simp

lemma reimport_block:
  assumes "wf_bview b" and "fst b \<noteq> Some []" and "untitled_text b \<longrightarrow> blk = None"
  shows "v_parse_lines (secs, Some s, blk) (v_block_lines b @ rest)
         = v_parse_lines (v_add (secs, Some s, blk) b) rest"
proof -
  obtain title ty c lang where b: "b = (title, ty, c, lang)" by (cases b)
  show ?thesis
  proof (cases ty)
    case TText
    show ?thesis
    proof (cases title)
      case None
      with assms b TText have blk: "blk = None" and pl: "list_all plain (py_split_nl c)"
        and lang: "lang = None"
        by simp_all
      obtain l ls where sp: "py_split_nl c = l # ls" by (cases "py_split_nl c") simp_all
      have "foldl v_on_text (secs, Some s, None) (l # ls)
            = (secs, Some s, Some (None, TText, l @ concat (map ((#) NL) ls), None))"
        by (simp add: foldl_text_block)
      also have "l @ concat (map ((#) NL) ls) = c"
        using py_join_nl_split [of c] by (simp add: sp py_join_nl_Cons)
      finally have f: "foldl v_on_text (secs, Some s, None) (py_split_nl c)
                       = (secs, Some s, Some (None, TText, c, None))"
        by (simp add: sp)
      have lhs: "v_block_lines b @ rest = [] # py_split_nl c @ [] # rest"
        using b TText None by simp
      have rhs: "v_add (secs, Some s, None) b = (secs, Some s, Some (None, TText, c, None))"
        using b TText None lang by simp
      show ?thesis
        unfolding lhs rhs blk by (simp only: vp_blank vp_plains [OF pl] f)
    next
      case (Some t)
      with assms b TText have t: "py_strip t = t" "t \<noteq> []" and lang: "lang = None"
        and h: "hd (py_split_nl c) = []" and pl: "list_all plain (tl (py_split_nl c))"
        by simp_all
      obtain ls where sp: "py_split_nl c = [] # ls"
        using h by (cases "py_split_nl c") simp_all
      have pl': "list_all plain ls" using pl sp by simp
      have "c = py_join_nl ([] # ls)" using py_join_nl_split [of c] by (simp add: sp)
      then have c: "concat (map ((#) NL) ls) = c" by (simp add: py_join_nl_Cons)
      have lhs: "v_block_lines b @ rest = [] # (''### '' @ t) # [] # [] # [] # ls @ [] # rest"
        using b TText Some t sp by simp
      have rhs: "v_add (secs, Some s, blk) b
                 = (secs, Some (v_close s blk), Some (Some t, TText, c, None))"
        using b TText Some lang by simp
      show ?thesis
        unfolding lhs rhs
        by (simp only: vp_blank vp_h3 [OF t(1)] vp_plains [OF pl'] foldl_text_block c append_Nil)
    qed
  next
    case TCode
    with assms b obtain g where g: "lang = Some g" "g \<noteq> []" "list_all is_word g"
      and t: "title = None" and cl: "list_all (\<lambda>l. \<not> startswith l ''```'') (py_split_nl c)"
      by (cases lang) auto
    have lhs: "v_block_lines b @ rest
               = [] # (''```'' @ g) # py_split_nl c @ ''```'' # [] # rest"
      using b TCode g t by simp
    have rhs: "v_add (secs, Some s, blk) b
               = (secs, Some (v_append (v_close s blk) (None, TCode, c, Some g)), None)"
      using b TCode g t by simp
    show ?thesis
      unfolding lhs rhs
      by (simp only: vp_blank vp_fence [OF g(2,3) cl] py_join_nl_split)
  qed (use assms b in simp_all)
qed

lemma v_add_closed:
  "\<exists>s' blk'. v_add (secs, Some s, blk) b = (secs, Some s', blk')
     \<and> v_close s' blk' = v_append (v_close s blk) b
     \<and> (is_code b \<longrightarrow> blk' = None)"
proof (cases "is_code b")
  case True
  then show ?thesis by simp
next
  case False
  obtain t bs where "v_close s blk = (t, bs)" by (cases "v_close s blk")
  with False show ?thesis by simp
qed


declare v_parse_lines.simps [simp del]

lemma reimport_blocks:
  assumes "list_all wf_bview bs" and "\<forall>b\<in>set bs. fst b \<noteq> Some []" and "adj bs"
    and "bs \<noteq> [] \<and> untitled_text (hd bs) \<longrightarrow> blk = None"
  shows "\<exists>s' blk'. v_parse_lines (secs, Some s, blk) (concat (map v_block_lines bs) @ rest)
                     = v_parse_lines (secs, Some s', blk') rest
           \<and> v_close s' blk' = (fst (v_close s blk), snd (v_close s blk) @ bs)"
  using assms
proof (induction bs arbitrary: s blk)
  case Nil
  have "v_parse_lines (secs, Some s, blk) (concat (map v_block_lines []) @ rest)
          = v_parse_lines (secs, Some s, blk) rest
        \<and> v_close s blk = (fst (v_close s blk), snd (v_close s blk) @ [])"
    by simp
  then show ?case by blast
next
  case (Cons b bs)
  let ?rest = "concat (map v_block_lines bs) @ rest"
  have b: "wf_bview b" "fst b \<noteq> Some []" "untitled_text b \<longrightarrow> blk = None"
    using Cons.prems by simp_all
  have A: "v_parse_lines (secs, Some s, blk) (v_block_lines b @ ?rest)
           = v_parse_lines (v_add (secs, Some s, blk) b) ?rest"
    using b by (rule reimport_block)
  obtain s1 blk1 where 1: "v_add (secs, Some s, blk) b = (secs, Some s1, blk1)"
    "v_close s1 blk1 = v_append (v_close s blk) b" "is_code b \<longrightarrow> blk1 = None"
    using v_add_closed by blast
  have p1: "list_all wf_bview bs" and p2: "\<forall>b\<in>set bs. fst b \<noteq> Some []"
    using Cons.prems by simp_all
  have p3: "adj bs" using Cons.prems(3) by (cases bs) simp_all
  have p4: "bs \<noteq> [] \<and> untitled_text (hd bs) \<longrightarrow> blk1 = None"
    using Cons.prems(3) 1(3) by (cases bs) simp_all
  from Cons.IH [OF p1 p2 p3 p4, of s1] obtain s' blk' where 2:
    "v_parse_lines (secs, Some s1, blk1) ?rest = v_parse_lines (secs, Some s', blk') rest"
    "v_close s' blk' = (fst (v_close s1 blk1), snd (v_close s1 blk1) @ bs)"
    by blast
  have "(fst (v_close s1 blk1), snd (v_close s1 blk1) @ bs)
        = (fst (v_close s blk), snd (v_close s blk) @ b # bs)"
    unfolding 1(2) by (cases "v_close s blk") simp
  with 2(2) have C: "v_close s' blk' = (fst (v_close s blk), snd (v_close s blk) @ b # bs)"
    by simp
  have "v_parse_lines (secs, Some s, blk) (concat (map v_block_lines (b # bs)) @ rest)
        = v_parse_lines (secs, Some s', blk') rest"
    using A 1(1) 2(1) by simp
  with C show ?case by blast
qed

lemma reimport_section:
  assumes "wf_sview sec" and "\<forall>b\<in>set (snd sec). fst b \<noteq> Some []"
  shows "\<exists>s' blk'. v_parse_lines (secs, Some s, blk) (v_section_lines sec @ rest)
                     = v_parse_lines (secs @ [v_close s blk], Some s', blk') rest
           \<and> v_close s' blk' = sec"
proof -
  obtain t bs where sec: "sec = (t, bs)" by (cases sec)
  have t: "py_strip t = t" using assms(1) sec by simp
  let ?rest = "concat (map v_block_lines bs) @ rest"
  have A: "v_parse_lines (secs, Some s, blk) ([] # (''## '' @ t) # [] # ?rest)
           = v_parse_lines (secs @ [v_close s blk], Some (t, []), None) ?rest"
    by (simp only: vp_blank vp_h2 [OF t])
  have p1: "list_all wf_bview bs" and p2: "\<forall>b\<in>set bs. fst b \<noteq> Some []" and p3: "adj bs"
    using assms sec by simp_all
  from reimport_blocks [OF p1 p2 p3, of None "secs @ [v_close s blk]" "(t, [])" rest]
  obtain s' blk' where 2:
    "v_parse_lines (secs @ [v_close s blk], Some (t, []), None) ?rest
       = v_parse_lines (secs @ [v_close s blk], Some s', blk') rest"
    "v_close s' blk' = (fst (v_close (t, []) None), snd (v_close (t, []) None) @ bs)"
    by blast
  have "v_parse_lines (secs, Some s, blk) (v_section_lines sec @ rest)
        = v_parse_lines (secs @ [v_close s blk], Some s', blk') rest"
    using A 2(1) sec by simp
  moreover have "v_close s' blk' = sec" using 2(2) sec by simp
  ultimately show ?thesis by blast
qed

lemma reimport_sections:
  assumes "list_all wf_sview V" and "\<forall>sec\<in>set V. \<forall>b\<in>set (snd sec). fst b \<noteq> Some []"
  shows "\<exists>secs' s' blk'. v_parse_lines (secs, Some s, blk) (concat (map v_section_lines V))
                          = (secs', Some s', blk')
           \<and> secs' @ [v_close s' blk'] = secs @ [v_close s blk] @ V"
  using assms
proof (induction V arbitrary: secs s blk)
  case Nil
  have "v_parse_lines (secs, Some s, blk) (concat (map v_section_lines [])) = (secs, Some s, blk)
        \<and> secs @ [v_close s blk] = secs @ [v_close s blk] @ []"
    by (simp add: v_parse_lines.simps)
  then show ?case by blast
next
  case (Cons sec V)
  have q1: "wf_sview sec" and q2: "\<forall>b\<in>set (snd sec). fst b \<noteq> Some []"
    and q3: "list_all wf_sview V" and q4: "\<forall>sec\<in>set V. \<forall>b\<in>set (snd sec). fst b \<noteq> Some []"
    using Cons.prems by simp_all
  from reimport_section [OF q1 q2, of secs s blk "concat (map v_section_lines V)"]
  obtain s1 blk1 where 1:
    "v_parse_lines (secs, Some s, blk) (v_section_lines sec @ concat (map v_section_lines V))
       = v_parse_lines (secs @ [v_close s blk], Some s1, blk1) (concat (map v_section_lines V))"
    "v_close s1 blk1 = sec"
    by blast
  from Cons.IH [OF q3 q4, of "secs @ [v_close s blk]" s1 blk1]
  obtain secs' s' blk' where 2:
    "v_parse_lines (secs @ [v_close s blk], Some s1, blk1) (concat (map v_section_lines V))
       = (secs', Some s', blk')"
    "secs' @ [v_close s' blk'] = (secs @ [v_close s blk]) @ [v_close s1 blk1] @ V"
    by blast
  have "v_parse_lines (secs, Some s, blk) (concat (map v_section_lines (sec # V)))
        = (secs', Some s', blk')"
    using 1(1) 2(1) by simp
  moreover have "secs' @ [v_close s' blk'] = secs @ [v_close s blk] @ sec # V"
    using 2(2) 1(2) by simp
  ultimately show ?case by blast
qed

lemma name_line_plain: "NL \<notin> set name \<Longrightarrow> plain (''# '' @ name)"
  by (simp add: plain_def startswith_def py_strip_empty_iff is_space_def)

lemma reimport_export:
  assumes "list_all wf_sview (doc_structure doc)"
    and "\<forall>b\<in>set (all_blocks doc). b_title b \<noteq> Some []"
    and "NL \<notin> set (c_name doc)"
  shows "v_import (export_markdown doc)
         = (''Imported Content'', [(None, TText, ''# '' @ c_name doc, None)]) # doc_structure doc"
proof -
  let ?V = "doc_structure doc"
  let ?n = "''# '' @ c_name doc"
  have nl: "NL \<notin> set ?n" using assms(3) by simp
  have lines: "py_split_nl (export_markdown doc) = ?n # [] # concat (map v_section_lines ?V)"
    using export_markdown_lines [OF assms(1)] nl by (simp add: py_split_nl_no_NL)
  have titles: "\<forall>sec\<in>set ?V. \<forall>b\<in>set (snd sec). fst b \<noteq> Some []"
    using assms(2)
    by (auto simp: doc_structure_def section_view_def block_view_def all_blocks_def)
  have A: "v_parse_lines ([], None, None) (?n # [] # concat (map v_section_lines ?V))
           = v_parse_lines ([], Some (''Imported Content'', []), Some (None, TText, ?n, None))
               (concat (map v_section_lines ?V))"
    by (simp only: vp_plain [OF name_line_plain [OF assms(3)]] vp_blank v_on_text.simps
          option.case)
  from reimport_sections [OF assms(1) titles,
      of "[]" "(''Imported Content'', [])" "Some (None, TText, ?n, None)"]
  obtain secs' s' blk' where 2:
    "v_parse_lines ([], Some (''Imported Content'', []), Some (None, TText, ?n, None))
       (concat (map v_section_lines ?V)) = (secs', Some s', blk')"
    "secs' @ [v_close s' blk']
       = [] @ [v_close (''Imported Content'', []) (Some (None, TText, ?n, None))] @ ?V"
    by blast
  have "v_import (export_markdown doc) = v_finish (secs', Some s', blk')"
    unfolding v_import_def lines A 2(1) by simp
  also have "\<dots> = secs' @ [v_close s' blk']" by (simp add: Let_def)
  finally show ?thesis using 2(2) by simp
qed


subsection \<open>The round trip\<close>

lemma empty_title_import: "doc_structure (parse_markdown_to_cheatsheet int empty_title_markdown ''n'')
  = [(''S'', [(None, TText, ''foo'', None), (Some [], TText, NL # ''bar'', None)])]"
  by (simp add: empty_title_markdown_def view_defs import_defs class_defs py_str_small)

lemma empty_title_export: "export_markdown (parse_markdown_to_cheatsheet int empty_title_markdown ''n'')
  = ''# n'' @ NL # NL # NL # ''## S'' @ NL # NL # NL # ''foo'' @ NL # NL # NL # NL # ''bar'' @ [NL]"
  by (simp add: empty_title_markdown_def export_defs import_defs class_defs py_str_small)

lemma empty_title_reimport: "doc_structure (parse_markdown_to_cheatsheet int
     (export_markdown (parse_markdown_to_cheatsheet int empty_title_markdown ''n'')) ''n'')
  = [(''Imported Content'', [(None, TText, ''# n'', None)]),
     (''S'', [(None, TText, ''foo'' @ NL # ''bar'', None)])]"
  unfolding empty_title_export
  by (simp add: view_defs import_defs class_defs py_str_small)


text \<open>
  Claim C2. Importing a text, exporting the document and importing the exported text again.
  The exported text starts with the line \<open># name\<close>, which the second import reads as a text
  block of a section \<open>Imported Content\<close> of its own; after that section the claim has the same
  section titles and the same block titles, types, contents and languages, in the same
  order, for every input. That fails when a \<open>###\<close> header has an empty title: the exporter
  writes no header for such a block, and its content is read as part of the text before it.
  It holds for every input whose imported document has no block with an empty title, and
  every name that is one line.
\<close>

theorem roundtrip_structure:
  assumes "\<forall>b\<in>set (all_blocks (parse_markdown_to_cheatsheet clock md name)). b_title b \<noteq> Some []"
    and "NL \<notin> set name"
  shows "doc_structure
           (parse_markdown_to_cheatsheet clock'
              (export_markdown (parse_markdown_to_cheatsheet clock md name)) name')
         = (''Imported Content'', [(None, TText, ''# '' @ name, None)])
           # doc_structure (parse_markdown_to_cheatsheet clock md name)"
proof -
  let ?doc = "parse_markdown_to_cheatsheet clock md name"
  have n: "c_name ?doc = name"
    by (simp add: parse_markdown_to_cheatsheet_def finish_def Let_def)
  have "list_all wf_sview (doc_structure ?doc)"
    unfolding doc_structure_import by (rule wf_import)
  from reimport_export [OF this assms(1)] assms(2) n show ?thesis
    by (simp add: doc_structure_import)
qed

theorem roundtrip_structure_witness:
  "doc_structure
     (parse_markdown_to_cheatsheet int
        (export_markdown (parse_markdown_to_cheatsheet int example_markdown ''Notes'')) ''Notes'')
   = [(''Imported Content'', [(None, TText, ''# Notes'', None)]),
      (''API'', [(Some ''Auth'', TText, [], None), (None, TCode, ''x = 1'', Some ''python'')])]"
proof -
  have d: "c_sections (parse_markdown_to_cheatsheet int example_markdown ''Notes'')
     = [\<lparr>s_id = ''sec_1_0'', s_title = ''API'', s_titleColor = None, s_titleSize = None,
         s_blocks =
           [\<lparr>b_id = ''block_cs_0_1'', b_type = TText, b_title = Some ''Auth'', b_content = [],
             b_x = 0, b_y = 0, b_w = 6, b_h = 2, b_language = None, b_referenceData = None\<rparr>,
            \<lparr>b_id = ''block_cs_0_2'', b_type = TCode, b_title = None, b_content = ''x = 1'',
             b_x = 0, b_y = 1, b_w = 6, b_h = 3, b_language = Some ''python'',
             b_referenceData = None\<rparr>]\<rparr>]"
    by (simp add: example_markdown_def import_defs class_defs py_str_small)
  have h1: "\<forall>b\<in>set (all_blocks (parse_markdown_to_cheatsheet int example_markdown ''Notes'')).
              b_title b \<noteq> Some []"
    by (simp add: all_blocks_def d)
  have h2: "NL \<notin> set ''Notes''" by simp
  from roundtrip_structure [OF h1 h2, of int "''Notes''"] show ?thesis
    by (simp add: doc_structure_def section_view_def block_view_def d)
qed

theorem roundtrip_counterexample:
  "doc_structure (parse_markdown_to_cheatsheet int
     (export_markdown (parse_markdown_to_cheatsheet int empty_title_markdown ''n'')) ''n'')
   \<noteq> (''Imported Content'', [(None, TText, ''# n'', None)])
       # doc_structure (parse_markdown_to_cheatsheet int empty_title_markdown ''n'')"
  unfolding empty_title_import empty_title_reimport by simp


section \<open>The importer never raises\<close>

lemmas checked_defs = parse_markdown_to_cheatsheet_checked_def initial_checked_state_def
  finish_checked_def on_text_checked_def add_to_content_def on_fence_checked_def on_h3_checked_def
  on_h2_checked_def flush_section_checked_def flush_block_checked_def append_block_def truthy_def
  Cheatsheet_new_def Section_new_def Block_new_def block_type_of_def opt_str_def req_int_def
  req_str_def bind_err_def fence_language_def lang_match_def

subsection \<open>The failures of the embedding can happen\<close>

text \<open>
  The branches that return an error are reached from states the loop never builds: appending
  text to a \<open>Block\<close> instance, or to a dictionary without content, and validating a dictionary
  whose type is not one of the literals.
\<close>

lemma on_text_checked_Block_item:
  "on_text_checked clock cid
     (initial_checked_state\<lparr>st_current_block := Some (BlockItem b)\<rparr>) ''x'' = Inl TypeError"
  by (simp add: checked_defs)

lemma on_text_checked_no_content:
  "on_text_checked clock cid
     (initial_checked_state\<lparr>st_current_block := Some (DictItem [(''id'', PyStr ''b'')])\<rparr>) ''x''
     = Inl KeyError"
  by (simp add: checked_defs)

lemma Block_new_bad_type:
  "Block_new [(''id'', PyStr ''b''), (''type'', PyStr ''note''), (''content'', PyStr []),
              (''x'', PyInt 0), (''y'', PyInt 0), (''w'', PyInt 6), (''h'', PyInt 2)]
     = Inl ValidationError"
  by (simp add: checked_defs)

lemma Block_new_missing_field:
  "Block_new [(''id'', PyStr ''b''), (''type'', PyStr ''text''), (''content'', PyStr [])]
     = Inl ValidationError"
  by (simp add: checked_defs)

subsection \<open>The example document\<close>

text \<open>
  On the example the \<open>Auth\<close> block is stored in the section as the dictionary the \<open>### \<close>
  branch built, followed by the validated code block; validating the dictionary gives the
  document of the first embedding.
\<close>

lemma import_example_checked:
  "parse_markdown_to_cheatsheet_checked int example_markdown ''Notes''
     = Inr \<lparr>co_id = ''cs_0'', co_name = ''Notes'',
            co_sections =
              [\<lparr>so_id = ''sec_1_0'', so_title = ''API'', so_titleColor = None,
                so_titleSize = None,
                so_blocks =
                  [DictItem [(''id'', PyStr ''block_cs_0_1''), (''title'', PyStr ''Auth''),
                             (''content'', PyStr []), (''type'', PyStr ''text''),
                             (''x'', PyInt 0), (''y'', PyInt 0), (''w'', PyInt 6),
                             (''h'', PyInt 2)],
                   BlockItem \<lparr>b_id = ''block_cs_0_2'', b_type = TCode, b_title = None,
                              b_content = ''x = 1'', b_x = 0, b_y = 1, b_w = 6, b_h = 3,
                              b_language = Some ''python'', b_referenceData = None\<rparr>]\<rparr>]\<rparr>"
  by (simp add: example_markdown_def checked_defs class_defs py_str_small)

lemma import_example_validated:
  "bind_err (parse_markdown_to_cheatsheet_checked int example_markdown ''Notes'') cheatsheet_of_obj
     = Inr (parse_markdown_to_cheatsheet int example_markdown ''Notes'')"
  by (simp add: example_markdown_def checked_defs import_defs class_defs py_str_small
        cheatsheet_of_obj_def section_of_obj_def block_of_item_def)

subsection \<open>Validation of the dictionaries of the loop\<close>

lemmas validate_defs = Block_new_def block_type_of_def opt_str_def req_int_def req_str_def
  bind_err_def

lemma Block_new_text_dict:
  assumes "text_shape b"
  shows "Block_new (text_dict b) = Inr b"
proof (cases "b_title b")
  case None
  with assms show ?thesis
    by (cases b) (simp add: text_shape_def text_dict_def validate_defs)
next
  case (Some t)
  with assms show ?thesis
    by (cases b) (simp add: text_shape_def text_dict_def validate_defs)
qed

lemma truthy_text_dict: "truthy (Some (DictItem (text_dict b)))"
  by (simp add: truthy_def text_dict_def)

lemma add_to_content_text_dict:
  "add_to_content (DictItem (text_dict b)) s
     = Inr (DictItem (text_dict (b\<lparr>b_content := b_content b @ s\<rparr>)))"
  by (cases "b_title b") (simp_all add: add_to_content_def text_dict_def)

lemma text_shape_content: "text_shape b \<Longrightarrow> text_shape (b\<lparr>b_content := c\<rparr>)"
  by (simp add: text_shape_def)

lemma blocks_of_items_snoc:
  assumes "blocks_of_items items = Inr bs" and "block_of_item item = Inr b"
  shows "blocks_of_items (items @ [item]) = Inr (bs @ [b])"
  using assms
proof (induction items arbitrary: bs)
  case Nil
  then show ?case by (simp add: bind_err_def)
next
  case (Cons a items)
  then show ?case by (auto simp: bind_err_def split: sum.splits)
qed

lemma sections_of_objs_snoc:
  assumes "sections_of_objs secs = Inr ss" and "section_of_obj sec = Inr s"
  shows "sections_of_objs (secs @ [sec]) = Inr (ss @ [s])"
  using assms
proof (induction secs arbitrary: ss)
  case Nil
  then show ?case by (simp add: bind_err_def)
next
  case (Cons a secs)
  then show ?case by (auto simp: bind_err_def split: sum.splits)
qed

lemma section_of_obj_append:
  assumes "section_of_obj sec = Inr s" and "block_of_item item = Inr b"
  shows "section_of_obj (append_block sec item) = Inr (s\<lparr>s_blocks := s_blocks s @ [b]\<rparr>)"
proof -
  from assms(1) obtain bs where bs: "blocks_of_items (so_blocks sec) = Inr bs"
    and s: "s = \<lparr>s_id = so_id sec, s_title = so_title sec, s_titleColor = so_titleColor sec,
                 s_titleSize = so_titleSize sec, s_blocks = bs\<rparr>"
    by (auto simp: section_of_obj_def bind_err_def split: sum.splits)
  from blocks_of_items_snoc [OF bs assms(2)] s show ?thesis
    by (simp add: section_of_obj_def append_block_def bind_err_def)
qed

lemma section_of_obj_new:
  "Section_new (PyStr i) (PyStr t) = Inr sec \<Longrightarrow> section_of_obj sec = Inr (new_section i t)"
  by (auto simp: Section_new_def section_of_obj_def new_section_def req_str_def bind_err_def)

lemma Section_new_ok:
  "Section_new (PyStr i) (PyStr t)
     = Inr \<lparr>so_id = i, so_title = t, so_titleColor = None, so_titleSize = None, so_blocks = []\<rparr>"
  by (simp add: Section_new_def req_str_def bind_err_def)

subsection \<open>The branches keep the relation\<close>

lemma rel_section_cases:
  assumes "rel_section so sec"
  obtains (none) "so = None" "sec = None"
  | (some) obj s where "so = Some obj" "sec = Some s" "section_of_obj obj = Inr s"
  using assms by (auto simp: rel_section_def split: option.splits)

lemma rel_block_cases:
  assumes "rel_block item blk"
  obtains (none) "item = None" "blk = None"
  | (some) b where "item = Some (DictItem (text_dict b))" "blk = Some b" "text_shape b"
  using assms by (auto simp: rel_block_def split: option.splits block_item.splits)

lemma rel_block_None [simp]: "rel_block None None"
  by (simp add: rel_block_def)

lemma rel_block_text: "text_shape b \<Longrightarrow> rel_block (Some (DictItem (text_dict b))) (Some b)"
  by (simp add: rel_block_def)

lemma rel_section_None [simp]: "rel_section None None"
  by (simp add: rel_section_def)

lemma rel_section_Some: "section_of_obj obj = Inr s \<Longrightarrow> rel_section (Some obj) (Some s)"
  by (simp add: rel_section_def)

lemma block_of_text_dict: "text_shape b \<Longrightarrow> block_of_item (DictItem (text_dict b)) = Inr b"
  by (simp add: block_of_item_def Block_new_text_dict)

lemma rel_flush_block:
  assumes "rel_state cst st"
  shows "rel_state (flush_block_checked cst) (flush_block st)"
proof -
  from assms have rs: "rel_section (st_current_section cst) (current_section st)"
    and rb: "rel_block (st_current_block cst) (current_block st)"
    by (simp_all add: rel_state_def)
  from rs show ?thesis
  proof (cases rule: rel_section_cases)
    case none
    with assms show ?thesis
      by (simp add: rel_state_def flush_block_checked_def flush_block_def)
  next
    case sec: (some obj s)
    from rb show ?thesis
    proof (cases rule: rel_block_cases)
      case none
      with sec assms show ?thesis
        by (simp add: rel_state_def flush_block_checked_def flush_block_def)
    next
      case (some b)
      have "section_of_obj (append_block obj (DictItem (text_dict b)))
            = Inr (s\<lparr>s_blocks := s_blocks s @ [b]\<rparr>)"
        using sec(3) block_of_text_dict [OF some(3)] by (rule section_of_obj_append)
      with sec some assms show ?thesis
        by (simp add: rel_state_def flush_block_checked_def flush_block_def truthy_text_dict
              rel_section_Some)
    qed
  qed
qed

lemma rel_flush_section:
  assumes "rel_state cst st"
  shows "rel_state (flush_section_checked cst) (flush_section st)"
proof -
  from assms have rs: "rel_section (st_current_section cst) (current_section st)"
    and ss: "sections_of_objs (st_sections cst) = Inr (sections st)"
    by (simp_all add: rel_state_def)
  from rs show ?thesis
  proof (cases rule: rel_section_cases)
    case none
    with assms show ?thesis
      by (simp add: rel_state_def flush_section_checked_def flush_section_def)
  next
    case (some obj s)
    with assms sections_of_objs_snoc [OF ss some(3)] show ?thesis
      by (simp add: rel_state_def flush_section_checked_def flush_section_def)
  qed
qed

lemma rel_truthy:
  assumes "rel_block item blk"
  shows "truthy item = (blk \<noteq> None)"
  using assms
proof (cases rule: rel_block_cases)
  case none
  then show ?thesis by (simp add: truthy_def)
next
  case (some b)
  then show ?thesis by (simp add: truthy_text_dict)
qed

lemma rel_section_none_iff:
  assumes "rel_section so sec"
  shows "(so = None) = (sec = None)"
  using assms by (cases rule: rel_section_cases) simp_all

lemma sections_of_objs_length:
  "sections_of_objs xs = Inr ys \<Longrightarrow> length xs = length ys"
  by (induction xs arbitrary: ys) (auto simp: bind_err_def split: sum.splits)

lemma rel_on_h2:
  assumes "rel_state cst st"
  shows "\<exists>cst'. on_h2_checked clock cst line = Inr cst' \<and> rel_state cst' (on_h2 clock st line)"
proof -
  from assms have rs: "rel_section (st_current_section cst) (current_section st)"
    and rb: "rel_block (st_current_block cst) (current_block st)"
    by (simp_all add: rel_state_def)
  define c1 where "c1 = (if st_current_section cst \<noteq> None \<and> truthy (st_current_block cst)
             then (flush_block_checked cst)\<lparr>st_current_block := None\<rparr> else cst)"
  define s1 where "s1 = (if current_section st \<noteq> None \<and> current_block st \<noteq> None
             then (flush_block st)\<lparr>current_block := None\<rparr> else st)"
  define c2 where "c2 = flush_section_checked c1"
  define s2 where "s2 = flush_section s1"
  have c: "(st_current_section cst \<noteq> None \<and> truthy (st_current_block cst))
           = (current_section st \<noteq> None \<and> current_block st \<noteq> None)"
    using rel_truthy [OF rb] rel_section_none_iff [OF rs] by simp
  have r1: "rel_state c1 s1"
  proof (cases "current_section st \<noteq> None \<and> current_block st \<noteq> None")
    case True
    then have t: "st_current_section cst \<noteq> None \<and> truthy (st_current_block cst)"
      using c by blast
    show ?thesis
      unfolding c1_def s1_def if_P [OF t] if_P [OF True]
      using rel_flush_block [OF assms] by (simp add: rel_state_def)
  next
    case False
    then have f: "\<not> (st_current_section cst \<noteq> None \<and> truthy (st_current_block cst))"
      using c by blast
    show ?thesis
      unfolding c1_def s1_def if_not_P [OF f] if_not_P [OF False] by (rule assms)
  qed
  have r2: "rel_state c2 s2"
    unfolding c2_def s2_def using r1 by (rule rel_flush_section)
  have eqs: "st_reads c2 = reads s2"
    and secs: "sections_of_objs (st_sections c2) = Inr (sections s2)"
    using r2 by (simp_all add: rel_state_def)
  have len: "length (st_sections c2) = length (sections s2)"
    using secs by (rule sections_of_objs_length)
  define sid where
    "sid = ''sec_'' @ py_str (clock (reads s2)) @ ''_'' @ py_str (int (length (sections s2)))"
  define obj where
    "obj = \<lparr>so_id = sid, so_title = py_strip (drop 3 line), so_titleColor = None,
            so_titleSize = None, so_blocks = []\<rparr>"
  have v: "on_h2_checked clock cst line
           = Inr (c2\<lparr>st_current_section := Some obj, st_reads := st_reads c2 + 1\<rparr>)"
    unfolding on_h2_checked_def Let_def c1_def [symmetric] c2_def [symmetric]
    by (simp add: Section_new_ok bind_err_def eqs len obj_def sid_def)
  have w: "on_h2 clock st line
           = s2\<lparr>current_section := Some (new_section sid (py_strip (drop 3 line))),
                reads := reads s2 + 1\<rparr>"
    unfolding on_h2_def Let_def s1_def [symmetric] s2_def [symmetric]
    by (simp add: sid_def)
  have "section_of_obj obj = Inr (new_section sid (py_strip (drop 3 line)))"
    by (simp add: section_of_obj_def new_section_def bind_err_def obj_def)
  then have "rel_state (c2\<lparr>st_current_section := Some obj, st_reads := st_reads c2 + 1\<rparr>)
               (s2\<lparr>current_section := Some (new_section sid (py_strip (drop 3 line))),
                   reads := reads s2 + 1\<rparr>)"
    using r2 by (simp add: rel_state_def rel_section_Some)
  with v w show ?thesis by simp
qed

lemma rel_on_h3:
  assumes "rel_state cst st"
  shows "\<exists>cst'. on_h3_checked cid cst line = Inr cst' \<and> rel_state cst' (on_h3 cid st line)"
proof -
  define c1 where "c1 = flush_block_checked cst"
  define s1 where "s1 = flush_block st"
  have r1: "rel_state c1 s1" unfolding c1_def s1_def using assms by (rule rel_flush_block)
  then have n: "st_block_counter c1 = block_counter s1" by (simp add: rel_state_def)
  define b where
    "b = \<lparr>b_id = ''block_'' @ cid @ ''_'' @ py_str (block_counter s1 + 1), b_type = TText,
          b_title = Some (py_strip (drop 4 line)), b_content = [], b_x = 0,
          b_y = block_counter s1 + 1 - 1, b_w = 6, b_h = 2, b_language = None,
          b_referenceData = None\<rparr>"
  have sh: "text_shape b" by (simp add: text_shape_def b_def)
  have v: "on_h3_checked cid cst line
           = Inr (c1\<lparr>st_block_counter := block_counter s1 + 1,
                     st_current_block := Some (DictItem (text_dict b))\<rparr>)"
    unfolding on_h3_checked_def Let_def c1_def [symmetric]
    by (simp add: n text_dict_def b_def)
  have w: "on_h3 cid st line
           = s1\<lparr>block_counter := block_counter s1 + 1, current_block := Some b\<rparr>"
    unfolding on_h3_def Let_def s1_def [symmetric] by (simp add: b_def)
  have "rel_state (c1\<lparr>st_block_counter := block_counter s1 + 1,
                       st_current_block := Some (DictItem (text_dict b))\<rparr>)
          (s1\<lparr>block_counter := block_counter s1 + 1, current_block := Some b\<rparr>)"
    using r1 rel_block_text [OF sh] by (simp add: rel_state_def)
  with v w show ?thesis by simp
qed

lemma rel_on_fence:
  assumes "rel_state cst st"
  shows "\<exists>cst'. on_fence_checked cid cst line code_lines = Inr cst'
           \<and> rel_state cst' (on_fence cid st line code_lines)"
proof -
  define c1 where "c1 = flush_block_checked cst"
  define s1 where "s1 = flush_block st"
  have r1: "rel_state c1 s1" unfolding c1_def s1_def using assms by (rule rel_flush_block)
  then have n: "st_block_counter c1 = block_counter s1"
    and rs: "rel_section (st_current_section c1) (current_section s1)"
    by (simp_all add: rel_state_def)
  define b where
    "b = \<lparr>b_id = ''block_'' @ cid @ ''_'' @ py_str (block_counter s1 + 1), b_type = TCode,
          b_title = None, b_content = py_join_nl code_lines, b_x = 0,
          b_y = block_counter s1 + 1 - 1, b_w = 6, b_h = 3,
          b_language = Some (fence_language line), b_referenceData = None\<rparr>"
  have new: "Block_new
               [(''id'', PyStr (''block_'' @ cid @ ''_'' @ py_str (block_counter s1 + 1))),
                (''type'', PyStr ''code''),
                (''content'', PyStr (py_join_nl code_lines)),
                (''language'', PyStr (fence_language line)),
                (''x'', PyInt 0),
                (''y'', PyInt (block_counter s1 + 1 - 1)),
                (''w'', PyInt 6),
                (''h'', PyInt 3)] = Inr b"
    by (simp add: validate_defs b_def)
  from rs show ?thesis
  proof (cases rule: rel_section_cases)
    case none
    have v: "on_fence_checked cid cst line code_lines
             = Inr (c1\<lparr>st_block_counter := block_counter s1 + 1, st_current_block := None\<rparr>)"
      unfolding on_fence_checked_def Let_def c1_def [symmetric] n new
      using none by (simp add: bind_err_def)
    have w: "on_fence cid st line code_lines
             = s1\<lparr>block_counter := block_counter s1 + 1, current_block := None\<rparr>"
      unfolding on_fence_def Let_def s1_def [symmetric] using none by simp
    have "rel_state (c1\<lparr>st_block_counter := block_counter s1 + 1, st_current_block := None\<rparr>)
            (s1\<lparr>block_counter := block_counter s1 + 1, current_block := None\<rparr>)"
      using r1 by (simp add: rel_state_def)
    with v w show ?thesis by simp
  next
    case (some obj s)
    have ap: "section_of_obj (append_block obj (BlockItem b))
              = Inr (s\<lparr>s_blocks := s_blocks s @ [b]\<rparr>)"
      using some(3) by (rule section_of_obj_append) (simp add: block_of_item_def)
    have v: "on_fence_checked cid cst line code_lines
             = Inr (c1\<lparr>st_block_counter := block_counter s1 + 1,
                       st_current_section := Some (append_block obj (BlockItem b)),
                       st_current_block := None\<rparr>)"
      unfolding on_fence_checked_def Let_def c1_def [symmetric] n new
      using some by (simp add: bind_err_def)
    have w: "on_fence cid st line code_lines
             = s1\<lparr>block_counter := block_counter s1 + 1,
                  current_section := Some (s\<lparr>s_blocks := s_blocks s @ [b]\<rparr>),
                  current_block := None\<rparr>"
      unfolding on_fence_def Let_def s1_def [symmetric] using some by (simp add: b_def)
    have "rel_state (c1\<lparr>st_block_counter := block_counter s1 + 1,
                         st_current_section := Some (append_block obj (BlockItem b)),
                         st_current_block := None\<rparr>)
            (s1\<lparr>block_counter := block_counter s1 + 1,
                current_section := Some (s\<lparr>s_blocks := s_blocks s @ [b]\<rparr>),
                current_block := None\<rparr>)"
      using r1 ap by (simp add: rel_state_def rel_section_Some)
    with v w show ?thesis by simp
  qed
qed

lemma rel_on_text:
  assumes "rel_state cst st"
  shows "\<exists>cst'. on_text_checked clock cid cst line = Inr cst'
           \<and> rel_state cst' (on_text clock cid st line)"
proof -
  from assms have rs: "rel_section (st_current_section cst) (current_section st)"
    and rd: "st_reads cst = reads st"
    by (simp_all add: rel_state_def)
  define sid where "sid = ''sec_'' @ py_str (clock (reads st)) @ ''_0''"
  define obj where
    "obj = \<lparr>so_id = sid, so_title = ''Imported Content'', so_titleColor = None,
            so_titleSize = None, so_blocks = []\<rparr>"
  define c1 where
    "c1 = (case st_current_section cst of
             None \<Rightarrow> cst\<lparr>st_current_section := Some obj, st_reads := st_reads cst + 1\<rparr>
           | Some sec \<Rightarrow> cst)"
  define s1 where
    "s1 = (case current_section st of
             None \<Rightarrow> st\<lparr>current_section := Some (new_section sid ''Imported Content''),
                         reads := reads st + 1\<rparr>
           | Some sec \<Rightarrow> st)"
  have so: "section_of_obj obj = Inr (new_section sid ''Imported Content'')"
    by (simp add: section_of_obj_def new_section_def bind_err_def obj_def)
  have r1: "rel_state c1 s1"
    using rs
  proof (cases rule: rel_section_cases)
    case none
    with assms so show ?thesis
      by (simp add: c1_def s1_def rel_state_def rel_section_Some)
  next
    case (some o' s')
    with assms show ?thesis by (simp add: c1_def s1_def)
  qed
  have pre: "(case st_current_section cst of
                None \<Rightarrow>
                  bind_err (Section_new (PyStr (''sec_'' @ py_str (clock (st_reads cst)) @ ''_0''))
                              (PyStr ''Imported Content'')) (\<lambda>sec.
                  Inr (cst\<lparr>st_current_section := Some sec, st_reads := st_reads cst + 1\<rparr>))
              | Some sec \<Rightarrow> Inr cst) = Inr c1"
    by (cases "st_current_section cst")
       (simp_all add: c1_def Section_new_ok bind_err_def obj_def sid_def rd)
  from r1 have rb: "rel_block (st_current_block c1) (current_block s1)"
    and n: "st_block_counter c1 = block_counter s1"
    by (simp_all add: rel_state_def)
  have w0: "on_text clock cid st line
            = (case current_block s1 of
                 None \<Rightarrow>
                   (let n = block_counter s1 + 1
                    in s1\<lparr>block_counter := n,
                          current_block := Some
                            \<lparr>b_id = ''block_'' @ cid @ ''_'' @ py_str n, b_type = TText,
                             b_title = None, b_content = line, b_x = 0, b_y = n - 1, b_w = 6,
                             b_h = 2, b_language = None, b_referenceData = None\<rparr>\<rparr>)
               | Some blk \<Rightarrow>
                   s1\<lparr>current_block := Some (blk\<lparr>b_content := b_content blk @ NL # line\<rparr>)\<rparr>)"
    unfolding on_text_def Let_def s1_def sid_def by simp
  from rb show ?thesis
  proof (cases rule: rel_block_cases)
    case none
    define b where
      "b = \<lparr>b_id = ''block_'' @ cid @ ''_'' @ py_str (block_counter s1 + 1), b_type = TText,
            b_title = None, b_content = line, b_x = 0, b_y = block_counter s1 + 1 - 1, b_w = 6,
            b_h = 2, b_language = None, b_referenceData = None\<rparr>"
    have sh: "text_shape b" by (simp add: text_shape_def b_def)
    have v: "on_text_checked clock cid cst line
             = Inr (c1\<lparr>st_block_counter := block_counter s1 + 1,
                       st_current_block := Some (DictItem (text_dict b))\<rparr>)"
      unfolding on_text_checked_def pre
      using none by (simp add: bind_err_def truthy_def Let_def n text_dict_def b_def)
    have w: "on_text clock cid st line
             = s1\<lparr>block_counter := block_counter s1 + 1, current_block := Some b\<rparr>"
      unfolding w0 using none by (simp add: Let_def b_def)
    have "rel_state (c1\<lparr>st_block_counter := block_counter s1 + 1,
                         st_current_block := Some (DictItem (text_dict b))\<rparr>)
            (s1\<lparr>block_counter := block_counter s1 + 1, current_block := Some b\<rparr>)"
      using r1 rel_block_text [OF sh] by (simp add: rel_state_def)
    with v w show ?thesis by simp
  next
    case (some b)
    let ?b = "b\<lparr>b_content := b_content b @ NL # line\<rparr>"
    have sh: "text_shape ?b" using some(3) by (rule text_shape_content)
    have v: "on_text_checked clock cid cst line
             = Inr (c1\<lparr>st_current_block := Some (DictItem (text_dict ?b))\<rparr>)"
      unfolding on_text_checked_def pre
      using some by (simp add: bind_err_def truthy_text_dict add_to_content_text_dict)
    have w: "on_text clock cid st line = s1\<lparr>current_block := Some ?b\<rparr>"
      unfolding w0 using some by simp
    have "rel_state (c1\<lparr>st_current_block := Some (DictItem (text_dict ?b))\<rparr>)
            (s1\<lparr>current_block := Some ?b\<rparr>)"
      using r1 rel_block_text [OF sh] by (simp add: rel_state_def)
    with v w show ?thesis by simp
  qed
qed

subsection \<open>The loop and the end of the importer\<close>

lemma rel_parse_lines:
  assumes "rel_state cst st"
  shows "\<exists>cst'. parse_lines_checked clock cid cst ls = Inr cst'
           \<and> rel_state cst' (parse_lines clock cid st ls)"
  using assms
proof (induction clock cid st ls arbitrary: cst rule: parse_lines.induct)
  case (1 clock cid st)
  then show ?case by simp
next
  case (2 clock cid st line rest)
  let ?after = "drop 1 (dropWhile (\<lambda>l. \<not> startswith l ''```'') rest)"
  let ?code = "takeWhile (\<lambda>l. \<not> startswith l ''```'') rest"
  show ?case
  proof (cases "startswith line ''## ''")
    case True
    from rel_on_h2 [OF "2.prems", of clock line] obtain c1 where
      c1: "on_h2_checked clock cst line = Inr c1" "rel_state c1 (on_h2 clock st line)"
      by blast
    have a: "parse_lines_checked clock cid cst (line # rest) = parse_lines_checked clock cid c1 rest"
      using True c1(1) by simp
    have b: "parse_lines clock cid st (line # rest) = parse_lines clock cid (on_h2 clock st line) rest"
      using True by simp
    show ?thesis unfolding a b by (rule "2.IH"(1) [OF True c1(2)])
  next
    case n2: False
    show ?thesis
    proof (cases "startswith line ''### ''")
      case True
      from rel_on_h3 [OF "2.prems", of cid line] obtain c1 where
        c1: "on_h3_checked cid cst line = Inr c1" "rel_state c1 (on_h3 cid st line)"
        by blast
      have a: "parse_lines_checked clock cid cst (line # rest)
               = parse_lines_checked clock cid c1 rest"
        using n2 True c1(1) by simp
      have b: "parse_lines clock cid st (line # rest)
               = parse_lines clock cid (on_h3 cid st line) rest"
        using n2 True by simp
      show ?thesis unfolding a b by (rule "2.IH"(2) [OF n2 True c1(2)])
    next
      case n3: False
      show ?thesis
      proof (cases "startswith line ''```''")
        case True
        from rel_on_fence [OF "2.prems", of cid line ?code] obtain c1 where
          c1: "on_fence_checked cid cst line ?code = Inr c1"
              "rel_state c1 (on_fence cid st line ?code)"
          by blast
        have a: "parse_lines_checked clock cid cst (line # rest)
                 = parse_lines_checked clock cid c1 ?after"
          using n2 n3 True c1(1) by simp
        have b: "parse_lines clock cid st (line # rest)
                 = parse_lines clock cid (on_fence cid st line ?code) ?after"
          using n2 n3 True by simp
        show ?thesis unfolding a b by (rule "2.IH"(3) [OF n2 n3 True c1(2)])
      next
        case nf: False
        show ?thesis
        proof (cases "py_strip line \<noteq> []")
          case True
          from rel_on_text [OF "2.prems", of clock cid line] obtain c1 where
            c1: "on_text_checked clock cid cst line = Inr c1"
                "rel_state c1 (on_text clock cid st line)"
            by blast
          have a: "parse_lines_checked clock cid cst (line # rest)
                   = parse_lines_checked clock cid c1 rest"
            using n2 n3 nf True c1(1) by simp
          have b: "parse_lines clock cid st (line # rest)
                   = parse_lines clock cid (on_text clock cid st line) rest"
            using n2 n3 nf True by simp
          show ?thesis unfolding a b by (rule "2.IH"(4) [OF n2 n3 nf True c1(2)])
        next
          case False
          have a: "parse_lines_checked clock cid cst (line # rest)
                   = parse_lines_checked clock cid cst rest"
            using n2 n3 nf False by simp
          have b: "parse_lines clock cid st (line # rest) = parse_lines clock cid st rest"
            using n2 n3 nf False by simp
          show ?thesis unfolding a b by (rule "2.IH"(5) [OF n2 n3 nf False "2.prems"])
        qed
      qed
    qed
  qed
qed

lemma rel_finish:
  assumes "rel_state cst st"
  shows "\<exists>doc. finish_checked clock cid name cst = Inr doc
           \<and> co_id doc = cid \<and> co_name doc = name \<and> co_sections doc \<noteq> []
           \<and> cheatsheet_of_obj doc = Inr (finish clock cid name st)"
proof -
  from assms have rs: "rel_section (st_current_section cst) (current_section st)"
    and rb: "rel_block (st_current_block cst) (current_block st)"
    by (simp_all add: rel_state_def)
  define c1 where "c1 = flush_block_checked cst"
  define s1 where "s1 = flush_block st"
  have pre: "(case st_current_section cst of
                None \<Rightarrow> Inr cst
              | Some sec \<Rightarrow>
                  (case st_current_block cst of
                     None \<Rightarrow> Inr cst
                   | Some item \<Rightarrow>
                       (if truthy (Some item)
                        then (case item of
                                DictItem d \<Rightarrow>
                                  bind_err (Block_new d) (\<lambda>blk.
                                  Inr (cst\<lparr>st_current_section :=
                                             Some (append_block sec (BlockItem blk))\<rparr>))
                              | BlockItem b \<Rightarrow>
                                  Inr (cst\<lparr>st_current_section :=
                                             Some (append_block sec (BlockItem b))\<rparr>))
                        else Inr cst)))
             = Inr (case st_current_section cst of
                      None \<Rightarrow> cst
                    | Some sec \<Rightarrow>
                        (case st_current_block cst of
                           None \<Rightarrow> cst
                         | Some item \<Rightarrow>
                             cst\<lparr>st_current_section :=
                                   Some (append_block sec (BlockItem (the (current_block st))))\<rparr>))"
    using rs
  proof (cases rule: rel_section_cases)
    case none
    then show ?thesis by simp
  next
    case sec: (some obj s)
    from rb show ?thesis
    proof (cases rule: rel_block_cases)
      case none
      with sec show ?thesis by simp
    next
      case (some b)
      with sec show ?thesis
        by (simp add: truthy_text_dict Block_new_text_dict bind_err_def)
    qed
  qed
  define c1' where
    "c1' = (case st_current_section cst of
              None \<Rightarrow> cst
            | Some sec \<Rightarrow>
                (case st_current_block cst of
                   None \<Rightarrow> cst
                 | Some item \<Rightarrow>
                     cst\<lparr>st_current_section :=
                           Some (append_block sec (BlockItem (the (current_block st))))\<rparr>))"
  have r1: "sections_of_objs (st_sections c1') = Inr (sections s1)
            \<and> rel_section (st_current_section c1') (current_section s1)
            \<and> st_reads c1' = reads s1"
    using rs
  proof (cases rule: rel_section_cases)
    case none
    with assms show ?thesis
      by (simp add: c1'_def s1_def flush_block_def rel_state_def)
  next
    case sec: (some obj s)
    from rb show ?thesis
    proof (cases rule: rel_block_cases)
      case none
      with sec assms show ?thesis
        by (simp add: c1'_def s1_def flush_block_def rel_state_def)
    next
      case (some b)
      have "section_of_obj (append_block obj (BlockItem b))
            = Inr (s\<lparr>s_blocks := s_blocks s @ [b]\<rparr>)"
        using sec(3) by (rule section_of_obj_append) (simp add: block_of_item_def)
      with sec some assms show ?thesis
        by (simp add: c1'_def s1_def flush_block_def rel_state_def rel_section_Some)
    qed
  qed
  define c2 where "c2 = flush_section_checked c1'"
  define s2 where "s2 = flush_section s1"
  have r2: "sections_of_objs (st_sections c2) = Inr (sections s2) \<and> st_reads c2 = reads s2"
  proof -
    from r1 have rs1: "rel_section (st_current_section c1') (current_section s1)" by simp
    from rs1 show ?thesis
    proof (cases rule: rel_section_cases)
      case none
      with r1 show ?thesis
        by (simp add: c2_def s2_def flush_section_checked_def flush_section_def)
    next
      case (some obj s)
      with r1 sections_of_objs_snoc [of "st_sections c1'" "sections s1" obj s] show ?thesis
        by (simp add: c2_def s2_def flush_section_checked_def flush_section_def)
    qed
  qed
  then have len: "(st_sections c2 = []) = (sections s2 = [])"
    using sections_of_objs_length [of "st_sections c2" "sections s2"] by auto
  define sid where "sid = ''sec_'' @ py_str (clock (reads s2)) @ ''_0''"
  define obj where
    "obj = \<lparr>so_id = sid, so_title = ''Imported Content'', so_titleColor = None,
            so_titleSize = None, so_blocks = []\<rparr>"
  define secs where "secs = (if st_sections c2 = [] then [obj] else st_sections c2)"
  have so: "section_of_obj obj = Inr (new_section sid ''Imported Content'')"
    by (simp add: section_of_obj_def new_section_def bind_err_def obj_def)
  have v: "finish_checked clock cid name cst
           = Inr \<lparr>co_id = cid, co_name = name, co_sections = secs\<rparr>"
    unfolding finish_checked_def pre c1'_def [symmetric]
    using r2
    by (simp add: bind_err_def Let_def c2_def [symmetric] Section_new_ok Cheatsheet_new_def
          req_str_def secs_def obj_def sid_def)
  have w: "finish clock cid name st
           = \<lparr>c_id = cid, c_name = name,
              c_sections = (if sections s2 = [] then [new_section sid ''Imported Content'']
                            else sections s2)\<rparr>"
    unfolding finish_def Let_def s1_def [symmetric] s2_def [symmetric] by (simp add: sid_def)
  have "sections_of_objs secs
        = Inr (if sections s2 = [] then [new_section sid ''Imported Content''] else sections s2)"
    using r2 len so by (simp add: secs_def bind_err_def)
  then have "cheatsheet_of_obj \<lparr>co_id = cid, co_name = name, co_sections = secs\<rparr>
             = Inr (finish clock cid name st)"
    unfolding w by (simp add: cheatsheet_of_obj_def bind_err_def)
  moreover have "secs \<noteq> []" by (simp add: secs_def)
  ultimately show ?thesis using v by simp
qed

lemma rel_initial: "rel_state initial_checked_state initial_state"
  by (simp add: rel_state_def initial_checked_state_def initial_state_def)


text \<open>
  Claim C6. With every exception of the importer's statements modelled as an error value
  (validation by the constructors of \<open>Block\<close>, \<open>Section\<close> and \<open>Cheatsheet\<close>, subscripting of
  \<open>current_block\<close>, a missing key), the importer returns a document (\<open>Inr\<close>), never an error,
  for every text and every name: the document has the given name and at least one section,
  and, its dictionaries validated, it is the document of the state-passing embedding
  \<open>parse_markdown_to_cheatsheet\<close>. For the empty text both embeddings give exactly one
  section, titled \<open>Imported Content\<close>, without blocks.
\<close>

theorem importer_never_raises:
  "(\<exists>doc. parse_markdown_to_cheatsheet_checked clock markdown_content name = Inr doc
           \<and> co_id doc = ''cs_'' @ py_str (clock 0) \<and> co_name doc = name
           \<and> co_sections doc \<noteq> []
           \<and> cheatsheet_of_obj doc
               = Inr (parse_markdown_to_cheatsheet clock markdown_content name))
   \<and> parse_markdown_to_cheatsheet_checked clock [] name
       = Inr \<lparr>co_id = ''cs_'' @ py_str (clock 0), co_name = name,
              co_sections = [\<lparr>so_id = ''sec_'' @ py_str (clock 1) @ ''_0'',
                              so_title = ''Imported Content'', so_titleColor = None,
                              so_titleSize = None, so_blocks = []\<rparr>]\<rparr>
   \<and> parse_markdown_to_cheatsheet clock [] name
       = \<lparr>c_id = ''cs_'' @ py_str (clock 0), c_name = name,
          c_sections = [\<lparr>s_id = ''sec_'' @ py_str (clock 1) @ ''_0'',
                          s_title = ''Imported Content'', s_titleColor = None,
                          s_titleSize = None, s_blocks = []\<rparr>]\<rparr>"
proof (intro conjI)
  let ?cid = "''cs_'' @ py_str (clock 0)"
  from rel_parse_lines [OF rel_initial, of clock ?cid "py_split_nl markdown_content"]
  obtain cst where c: "parse_lines_checked clock ?cid initial_checked_state
                         (py_split_nl markdown_content) = Inr cst"
    and r: "rel_state cst (parse_lines clock ?cid initial_state (py_split_nl markdown_content))"
    by blast
  from rel_finish [OF r, of clock ?cid name] obtain doc where
    "finish_checked clock ?cid name cst = Inr doc"
    "co_id doc = ?cid" "co_name doc = name" "co_sections doc \<noteq> []"
    "cheatsheet_of_obj doc
       = Inr (finish clock ?cid name
                (parse_lines clock ?cid initial_state (py_split_nl markdown_content)))"
    by blast
  with c show "\<exists>doc. parse_markdown_to_cheatsheet_checked clock markdown_content name = Inr doc
           \<and> co_id doc = ''cs_'' @ py_str (clock 0) \<and> co_name doc = name
           \<and> co_sections doc \<noteq> []
           \<and> cheatsheet_of_obj doc
               = Inr (parse_markdown_to_cheatsheet clock markdown_content name)"
    by (simp add: parse_markdown_to_cheatsheet_checked_def parse_markdown_to_cheatsheet_def
          Let_def bind_err_def)
  show "parse_markdown_to_cheatsheet_checked clock [] name
       = Inr \<lparr>co_id = ''cs_'' @ py_str (clock 0), co_name = name,
              co_sections = [\<lparr>so_id = ''sec_'' @ py_str (clock 1) @ ''_0'',
                              so_title = ''Imported Content'', so_titleColor = None,
                              so_titleSize = None, so_blocks = []\<rparr>]\<rparr>"
    by (simp add: checked_defs class_defs)
  show "parse_markdown_to_cheatsheet clock [] name
       = \<lparr>c_id = ''cs_'' @ py_str (clock 0), c_name = name,
          c_sections = [\<lparr>s_id = ''sec_'' @ py_str (clock 1) @ ''_0'',
                          s_title = ''Imported Content'', s_titleColor = None,
                          s_titleSize = None, s_blocks = []\<rparr>]\<rparr>"
    by (simp add: import_defs class_defs)
qed
end
